theory Spec2Isabelle
  imports Complex_Main "HOL-Library.Word"
begin

section \<open>JavaScript strings\<close>

text \<open>
  A JavaScript string is a sequence of UTF-16 code units; \<open>length\<close> counts code units.
  Regular expressions with the \<open>u\<close> flag and \<open>toUpperCase\<close> work on code points, where a
  leading surrogate followed by a trailing surrogate spells one code point.
\<close>

type_synonym code_unit = "16 word"
type_synonym jsstring = "code_unit list"

definition ascii :: "string \<Rightarrow> jsstring" where
  "ascii s = map (\<lambda>c. word_of_nat (of_char c)) s"

text \<open>
  The class \<open>\s\<close> of a regular expression, which is also what \<open>trim\<close> removes:
  WhiteSpace (TAB, VT, FF, ZWNBSP and the space separators) and LineTerminator
  (LF, CR, LS, PS).
\<close>

definition isWhiteSpace :: "nat \<Rightarrow> bool" where
  "isWhiteSpace c \<longleftrightarrow>
     c = 0x9 \<or> c = 0xA \<or> c = 0xB \<or> c = 0xC \<or> c = 0xD \<or> c = 0x20 \<or> c = 0xA0 \<or>
     c = 0x1680 \<or> (0x2000 \<le> c \<and> c \<le> 0x200A) \<or> c = 0x2028 \<or> c = 0x2029 \<or>
     c = 0x202F \<or> c = 0x205F \<or> c = 0x3000 \<or> c = 0xFEFF"

definition isDigit :: "nat \<Rightarrow> bool" where
  "isDigit c \<longleftrightarrow> 0x30 \<le> c \<and> c \<le> 0x39"

definition trim :: "jsstring \<Rightarrow> jsstring" where
  "trim s =
     rev (dropWhile (\<lambda>c. isWhiteSpace (unat c)) (rev (dropWhile (\<lambda>c. isWhiteSpace (unat c)) s)))"

definition isLeadingSurrogate :: "code_unit \<Rightarrow> bool" where
  "isLeadingSurrogate c \<longleftrightarrow> 0xD800 \<le> c \<and> c \<le> 0xDBFF"

definition isTrailingSurrogate :: "code_unit \<Rightarrow> bool" where
  "isTrailingSurrogate c \<longleftrightarrow> 0xDC00 \<le> c \<and> c \<le> 0xDFFF"

definition UTF16SurrogatePairToCodePoint :: "code_unit \<Rightarrow> code_unit \<Rightarrow> nat" where
  "UTF16SurrogatePairToCodePoint lead trail =
     (unat lead - 0xD800) * 0x400 + (unat trail - 0xDC00) + 0x10000"

text \<open>
  The code points of a string, each with the code units that spell it. A surrogate that
  is not part of a pair is a code point of its own.
\<close>

fun codePoints :: "jsstring \<Rightarrow> (nat \<times> jsstring) list" where
  "codePoints [] = []"
| "codePoints [c] = [(unat c, [c])]"
| "codePoints (c # d # rest) =
     (if isLeadingSurrogate c \<and> isTrailingSurrogate d
      then (UTF16SurrogatePairToCodePoint c d, [c, d]) # codePoints rest
      else (unat c, [c]) # codePoints (d # rest))"

definition StringToCodePoints :: "jsstring \<Rightarrow> nat list" where
  "StringToCodePoints s = map fst (codePoints s)"

definition UTF16EncodeCodePoint :: "nat \<Rightarrow> jsstring" where
  "UTF16EncodeCodePoint cp =
     (if cp \<le> 0xFFFF then [word_of_nat cp]
      else [word_of_nat ((cp - 0x10000) div 0x400 + 0xD800),
            word_of_nat ((cp - 0x10000) mod 0x400 + 0xDC00)])"

definition CodePointsToString :: "nat list \<Rightarrow> jsstring" where
  "CodePointsToString cps = concat (map UTF16EncodeCodePoint cps)"

text \<open>
  The Unicode character database is not part of the repository. The two tables the code
  reads through the language run-time are parameters: the upper-case mapping of a code point
  (one code point may map to several) and membership in the general category Letter
  (\<open>\p{L}\<close>).
\<close>

record unicode_data =
  Uppercase_Mapping :: "nat \<Rightarrow> nat list"
  Letter :: "nat \<Rightarrow> bool"

definition toUpperCase :: "unicode_data \<Rightarrow> jsstring \<Rightarrow> jsstring" where
  "toUpperCase U s =
     CodePointsToString (concat (map (Uppercase_Mapping U) (StringToCodePoints s)))"

text \<open>\<open>s.replace(/[^0-9\p{L}\s]/gu, '')\<close>: every code point outside the class is deleted.\<close>

definition keptInName :: "unicode_data \<Rightarrow> nat \<Rightarrow> bool" where
  "keptInName U cp \<longleftrightarrow> isDigit cp \<or> Letter U cp \<or> isWhiteSpace cp"

definition removeSpecialCharacters :: "unicode_data \<Rightarrow> jsstring \<Rightarrow> jsstring" where
  "removeSpecialCharacters U s =
     concat (map snd (filter (\<lambda>p. keptInName U (fst p)) (codePoints s)))"

text \<open>
  \<open>s.replace(/[\s\-\_]/g, '')\<close>: without the \<open>u\<close> flag the expression works on code
  units; every white space, hyphen-minus and low line is deleted.
\<close>

definition isSeparator :: "code_unit \<Rightarrow> bool" where
  "isSeparator c \<longleftrightarrow> isWhiteSpace (unat c) \<or> c = 0x2D \<or> c = 0x5F"

definition removeSeparators :: "jsstring \<Rightarrow> jsstring" where
  "removeSeparators s = filter (\<lambda>c. \<not> isSeparator c) s"

section \<open>Parsed payloads\<close>

text \<open>
  What \<open>JSON.parse\<close> returns. Numbers are doubles in the source; the code only tests them
  for truthiness, so a rational stands for the number. An array has its elements and an
  object its own properties, in the order of the text.
\<close>

datatype jsvalue =
    JNull
  | JBoolean bool
  | JNumber rat
  | JString jsstring
  | JArray "jsvalue list"
  | JObject "(jsstring \<times> jsvalue) list"

fun ToBoolean :: "jsvalue \<Rightarrow> bool" where
  "ToBoolean JNull = False"
| "ToBoolean (JBoolean b) = b"
| "ToBoolean (JNumber n) = (n \<noteq> 0)"
| "ToBoolean (JString s) = (s \<noteq> [])"
| "ToBoolean (JArray xs) = True"
| "ToBoolean (JObject ps) = True"

text \<open>
  The interface \<open>ExtractedData\<close>. The type assertion of the source checks nothing at run
  time, so a property holds any parsed value or is missing (\<open>None\<close>, reads as
  \<open>undefined\<close>). Properties with other names are never read or written by the code.
\<close>

record ExtractedData =
  beneficiaryName :: "jsvalue option"
  accountNumber :: "jsvalue option"
  swiftCode :: "jsvalue option"
  bankName :: "jsvalue option"
  country :: "jsvalue option"
  province :: "jsvalue option"
  city :: "jsvalue option"
  address :: "jsvalue option"
  goodsDescription :: "jsvalue option"

text \<open>
  A parsed document: \<open>null\<close>, on which every property read throws; a boolean, number,
  string or array, on which each of the nine properties reads as \<open>undefined\<close>; or an object.
\<close>

datatype primitive = Boolean bool | Number rat | String jsstring | Array

fun primitiveToBoolean :: "primitive \<Rightarrow> bool" where
  "primitiveToBoolean (Boolean b) = b"
| "primitiveToBoolean (Number n) = (n \<noteq> 0)"
| "primitiveToBoolean (String s) = (s \<noteq> [])"
| "primitiveToBoolean Array = True"

datatype document = NullDocument | PrimitiveDocument primitive | ObjectDocument ExtractedData

section \<open>Extraction: \<open>extractDataFromFile\<close>\<close>

datatype Part = Text jsstring | InlineData jsstring jsstring

text \<open>A value thrown by a collaborator (the SDK call, the worker), with its \<open>message\<close>.\<close>

datatype thrown = Thrown "jsstring option"

datatype exception = SyntaxError | TypeError

datatype error = CallFailed thrown | EmptyResponse | MalformedResponse

text \<open>The texts of the two errors the function throws itself.\<close>

definition EMPTY_RESPONSE_MESSAGE :: jsstring where
  "EMPTY_RESPONSE_MESSAGE =
     [0x0641, 0x0634, 0x0644, 0x0020, 0x0641, 0x064A, 0x0020, 0x0627, 0x0633, 0x062A,
      0x062E, 0x0631, 0x0627, 0x062C, 0x0020, 0x0627, 0x0644, 0x0628, 0x064A, 0x0627,
      0x0646, 0x0627, 0x062A, 0x003A, 0x0020, 0x0627, 0x0633, 0x062A, 0x062C, 0x0627,
      0x0628, 0x0629, 0x0020, 0x0641, 0x0627, 0x0631, 0x063A, 0x0629, 0x0020, 0x0623,
      0x0648, 0x0020, 0x063A, 0x064A, 0x0631, 0x0020, 0x0635, 0x0627, 0x0644, 0x062D,
      0x0629, 0x0020, 0x0645, 0x0646, 0x0020, 0x0627, 0x0644, 0x0646, 0x0645, 0x0648,
      0x0630, 0x062C, 0x002E]"

definition MALFORMED_RESPONSE_MESSAGE :: jsstring where
  "MALFORMED_RESPONSE_MESSAGE =
     [0x0641, 0x0634, 0x0644, 0x0020, 0x0641, 0x064A, 0x0020, 0x062A, 0x062D, 0x0644,
      0x064A, 0x0644, 0x0020, 0x0627, 0x0644, 0x0628, 0x064A, 0x0627, 0x0646, 0x0627,
      0x062A, 0x0020, 0x0627, 0x0644, 0x0645, 0x0633, 0x062A, 0x062E, 0x0631, 0x062C,
      0x0629, 0x003A, 0x0020, 0x062A, 0x0646, 0x0633, 0x064A, 0x0642, 0x0020, 0x0627,
      0x0633, 0x062A, 0x062C, 0x0627, 0x0628, 0x0629, 0x0020, 0x063A, 0x064A, 0x0631,
      0x0020, 0x0645, 0x062A, 0x0648, 0x0642, 0x0639, 0x0020, 0x0645, 0x0646, 0x0020,
      0x0627, 0x0644, 0x0646, 0x0645, 0x0648, 0x0630, 0x062C, 0x002E]"

text \<open>
  One formatting statement \<open>if (data.f) data.f = g(data.f)\<close>, where \<open>g\<close> calls string
  methods: a falsy or missing value is left alone, a non-empty string is rewritten, and on
  any other truthy value the method is not a function, which throws.
\<close>

definition formatField ::
  "(ExtractedData \<Rightarrow> jsvalue option) \<Rightarrow>
   ((jsvalue option \<Rightarrow> jsvalue option) \<Rightarrow> ExtractedData \<Rightarrow> ExtractedData) \<Rightarrow>
   (jsstring \<Rightarrow> jsstring) \<Rightarrow> ExtractedData \<Rightarrow> exception + ExtractedData" where
  "formatField get upd g data =
     (case get data of
        None \<Rightarrow> Inr data
      | Some v \<Rightarrow>
          if ToBoolean v
          then (case v of
                  JString s \<Rightarrow> Inr (upd (\<lambda>_. Some (JString (g s))) data)
                | _ \<Rightarrow> Inl TypeError)
          else Inr data)"

definition formatSwiftCode :: "unicode_data \<Rightarrow> jsstring \<Rightarrow> jsstring" where
  "formatSwiftCode U s =
     (let code = toUpperCase U (trim s)
      in if length code = 8 then code @ ascii ''XXX'' else code)"

fun runStatements ::
  "(ExtractedData \<Rightarrow> exception + ExtractedData) list \<Rightarrow> ExtractedData \<Rightarrow>
   exception + ExtractedData" where
  "runStatements [] data = Inr data"
| "runStatements (st # sts) data =
     (case st data of Inl e \<Rightarrow> Inl e | Inr data' \<Rightarrow> runStatements sts data')"

definition formatStatements ::
  "unicode_data \<Rightarrow> (ExtractedData \<Rightarrow> exception + ExtractedData) list" where
  "formatStatements U =
     [formatField beneficiaryName beneficiaryName_update
        (\<lambda>s. toUpperCase U (removeSpecialCharacters U s)),
      formatField accountNumber accountNumber_update removeSeparators,
      formatField country country_update (toUpperCase U),
      formatField province province_update (toUpperCase U),
      formatField city city_update (toUpperCase U),
      formatField address address_update (toUpperCase U),
      formatField swiftCode swiftCode_update (formatSwiftCode U)]"

text \<open>The body of the \<open>try\<close> block: parse, then format the fields in place.\<close>

definition parseAndFormat ::
  "unicode_data \<Rightarrow> (jsstring \<Rightarrow> document option) \<Rightarrow> jsstring \<Rightarrow> exception + document" where
  "parseAndFormat U JSON_parse jsonText =
     (case JSON_parse jsonText of
        None \<Rightarrow> Inl SyntaxError
      | Some NullDocument \<Rightarrow> Inl TypeError
      | Some (PrimitiveDocument v) \<Rightarrow> Inr (PrimitiveDocument v)
      | Some (ObjectDocument data) \<Rightarrow>
          (case runStatements (formatStatements U) data of
             Inl e \<Rightarrow> Inl e
           | Inr data' \<Rightarrow> Inr (ObjectDocument data')))"

text \<open>\<open>response.text?.trim() ?? ''\<close>\<close>

definition jsonTextOf :: "jsstring option \<Rightarrow> jsstring" where
  "jsonTextOf text = (case text of None \<Rightarrow> [] | Some t \<Rightarrow> trim t)"

text \<open>
  \<open>extractDataFromFile\<close>. The remote call is the parameter \<open>generateContent\<close>: it throws,
  or returns a response whose \<open>text\<close> is a string or \<open>undefined\<close>. \<open>JSON_parse\<close> is the
  run-time's parser, \<open>None\<close> where it throws.
\<close>

definition extractDataFromFile ::
  "unicode_data \<Rightarrow> (jsstring \<Rightarrow> document option) \<Rightarrow> (Part \<Rightarrow> thrown + jsstring option) \<Rightarrow>
   Part \<Rightarrow> error + document" where
  "extractDataFromFile U JSON_parse generateContent contentPart =
     (case generateContent contentPart of
        Inl e \<Rightarrow> Inl (CallFailed e)
      | Inr text \<Rightarrow>
          (let jsonText = jsonTextOf text
           in if jsonText = [] then Inl EmptyResponse
              else (case parseAndFormat U JSON_parse jsonText of
                      Inl _ \<Rightarrow> Inl MalformedResponse
                    | Inr data \<Rightarrow> Inr data)))"

text \<open>
  The constant \<open>dataExtractionSchema\<close> that is sent with the request: an object whose nine
  properties are strings, five of them required.
\<close>

definition isStringOrMissing :: "jsvalue option \<Rightarrow> bool" where
  "isStringOrMissing v = (case v of None \<Rightarrow> True | Some (JString s) \<Rightarrow> True | Some _ \<Rightarrow> False)"

definition dataExtractionSchema :: "document \<Rightarrow> bool" where
  "dataExtractionSchema doc =
     (case doc of
        ObjectDocument d \<Rightarrow>
          isStringOrMissing (beneficiaryName d) \<and> isStringOrMissing (accountNumber d) \<and>
          isStringOrMissing (swiftCode d) \<and> isStringOrMissing (bankName d) \<and>
          isStringOrMissing (country d) \<and> isStringOrMissing (city d) \<and>
          isStringOrMissing (province d) \<and> isStringOrMissing (address d) \<and>
          isStringOrMissing (goodsDescription d) \<and>
          beneficiaryName d \<noteq> None \<and> accountNumber d \<noteq> None \<and> swiftCode d \<noteq> None \<and>
          bankName d \<noteq> None \<and> country d \<noteq> None
      | _ \<Rightarrow> False)"

definition parsesIntoSchema :: "(jsstring \<Rightarrow> document option) \<Rightarrow> jsstring \<Rightarrow> bool" where
  "parsesIntoSchema JSON_parse jsonText =
     (case JSON_parse jsonText of None \<Rightarrow> False | Some doc \<Rightarrow> dataExtractionSchema doc)"

subsection \<open>The effect of the formatting statements, in closed form\<close>

text \<open>
  A formatting statement throws on a truthy value that is not a string, and rewrites a
  non-empty string. The two definitions below describe the seven statements together;
  \<open>runStatements_format\<close> proves that they say what the statements do.
\<close>

definition throwsOn :: "jsvalue option \<Rightarrow> bool" where
  "throwsOn v = (case v of None \<Rightarrow> False | Some (JString s) \<Rightarrow> False | Some x \<Rightarrow> ToBoolean x)"

definition formatted :: "(jsstring \<Rightarrow> jsstring) \<Rightarrow> jsvalue option \<Rightarrow> jsvalue option" where
  "formatted g v =
     (case v of Some (JString s) \<Rightarrow> if s = [] then v else Some (JString (g s)) | _ \<Rightarrow> v)"

definition formatThrows :: "ExtractedData \<Rightarrow> bool" where
  "formatThrows data \<longleftrightarrow>
     throwsOn (beneficiaryName data) \<or> throwsOn (accountNumber data) \<or>
     throwsOn (country data) \<or> throwsOn (province data) \<or> throwsOn (city data) \<or>
     throwsOn (address data) \<or> throwsOn (swiftCode data)"

definition formattedData :: "unicode_data \<Rightarrow> ExtractedData \<Rightarrow> ExtractedData" where
  "formattedData U data = data\<lparr>
     beneficiaryName :=
       formatted (\<lambda>s. toUpperCase U (removeSpecialCharacters U s)) (beneficiaryName data),
     accountNumber := formatted removeSeparators (accountNumber data),
     country := formatted (toUpperCase U) (country data),
     province := formatted (toUpperCase U) (province data),
     city := formatted (toUpperCase U) (city data),
     address := formatted (toUpperCase U) (address data),
     swiftCode := formatted (formatSwiftCode U) (swiftCode data)\<rparr>"

text \<open>What the \<open>try\<close> block does with a text: it throws, or it returns a document.\<close>

definition rejected :: "(jsstring \<Rightarrow> document option) \<Rightarrow> jsstring \<Rightarrow> bool" where
  "rejected JSON_parse jsonText =
     (case JSON_parse jsonText of
        None \<Rightarrow> True
      | Some NullDocument \<Rightarrow> True
      | Some (PrimitiveDocument v) \<Rightarrow> False
      | Some (ObjectDocument d) \<Rightarrow> formatThrows d)"

definition formattedDocument :: "unicode_data \<Rightarrow> document \<Rightarrow> document" where
  "formattedDocument U doc =
     (case doc of ObjectDocument d \<Rightarrow> ObjectDocument (formattedData U d) | _ \<Rightarrow> doc)"

text \<open>
  How a field of the payload relates to the field of the returned record: both missing or
  both there; what is returned is a string, or the payload's falsy value itself; and an
  empty string is returned as an empty string.
\<close>

definition absentFalsyOrString :: "jsvalue option \<Rightarrow> jsvalue option \<Rightarrow> bool" where
  "absentFalsyOrString before after \<longleftrightarrow>
     (after = None \<longleftrightarrow> before = None) \<and>
     (\<forall>v. after = Some v \<longrightarrow> (\<exists>s. v = JString s) \<or> (\<not> ToBoolean v \<and> before = Some v)) \<and>
     (before = Some (JString []) \<longrightarrow> after = Some (JString []))"

section \<open>Enrichment: \<open>getCompanyInfo\<close>\<close>

definition NO_NAME_INFO :: jsstring where
  "NO_NAME_INFO =
     [0x0644, 0x0645, 0x0020, 0x064A, 0x062A, 0x0645, 0x0020, 0x062A, 0x0648, 0x0641,
      0x064A, 0x0631, 0x0020, 0x0627, 0x0633, 0x0645, 0x0020, 0x0644, 0x0644, 0x0628,
      0x062D, 0x062B, 0x002E]"

definition NO_INFO_FOUND :: jsstring where
  "NO_INFO_FOUND =
     [0x0644, 0x0645, 0x0020, 0x064A, 0x062A, 0x0645, 0x0020, 0x0627, 0x0644, 0x0639,
      0x062B, 0x0648, 0x0631, 0x0020, 0x0639, 0x0644, 0x0649, 0x0020, 0x0645, 0x0639,
      0x0644, 0x0648, 0x0645, 0x0627, 0x062A, 0x0020, 0x0625, 0x0636, 0x0627, 0x0641,
      0x064A, 0x0629, 0x002E]"

definition SEARCH_FAILED_INFO :: jsstring where
  "SEARCH_FAILED_INFO =
     [0x0641, 0x0634, 0x0644, 0x0020, 0x0641, 0x064A, 0x0020, 0x0627, 0x0644, 0x062D,
      0x0635, 0x0648, 0x0644, 0x0020, 0x0639, 0x0644, 0x0649, 0x0020, 0x0645, 0x0639,
      0x0644, 0x0648, 0x0645, 0x0627, 0x062A, 0x0020, 0x0625, 0x0636, 0x0627, 0x0641,
      0x064A, 0x0629, 0x0020, 0x0028, 0x062E, 0x0637, 0x0623, 0x0020, 0x0641, 0x064A,
      0x0020, 0x0627, 0x0644, 0x0627, 0x062A, 0x0635, 0x0627, 0x0644, 0x0020, 0x0628,
      0x062E, 0x062F, 0x0645, 0x0629, 0x0020, 0x0627, 0x0644, 0x0628, 0x062D, 0x062B,
      0x0029, 0x002E, 0x0020, 0x0642, 0x062F, 0x0020, 0x064A, 0x0643, 0x0648, 0x0646,
      0x0020, 0x0627, 0x0644, 0x0633, 0x0628, 0x0628, 0x0020, 0x0645, 0x0634, 0x0643,
      0x0644, 0x0629, 0x0020, 0x0641, 0x064A, 0x0020, 0x0627, 0x0644, 0x0634, 0x0628,
      0x0643, 0x0629, 0x0020, 0x0623, 0x0648, 0x0020, 0x062A, 0x062C, 0x0627, 0x0648,
      0x0632, 0x064B, 0x0627, 0x0020, 0x0644, 0x0645, 0x0639, 0x062F, 0x0644, 0x0020,
      0x0627, 0x0644, 0x0627, 0x0633, 0x062A, 0x062E, 0x062F, 0x0627, 0x0645, 0x002E]"

definition GOODS_UNSPECIFIED :: jsstring where
  "GOODS_UNSPECIFIED =
     [0x063A, 0x064A, 0x0631, 0x0020, 0x0645, 0x062D, 0x062F, 0x062F]"

text \<open>
  The prompt is a fixed text around three interpolated values, which stand for it here:
  the company name, the bank name and \<open>goodsDescription || "..."\<close>.
\<close>

record searchRequest =
  requestCompany :: jsstring
  requestBank :: "jsvalue option"
  requestGoods :: jsvalue

text \<open>
  A grounding chunk is its \<open>web\<close> property, if it has one, with the optional \<open>uri\<close> and
  \<open>title\<close>. \<open>groundingChunks\<close> is \<open>None\<close> when a link of the optional chain
  \<open>candidates?.[0]?.groundingMetadata?.groundingChunks\<close> is missing.
\<close>

type_synonym groundingChunk = "(jsstring option \<times> jsstring option) option"

record searchResponse =
  responseText :: "jsstring option"
  groundingChunks :: "groundingChunk list option"

record CompanyInfo =
  info :: jsstring
  sources :: "(jsstring \<times> jsstring) list"

definition sourcesOf :: "groundingChunk list \<Rightarrow> (jsstring \<times> jsstring) list" where
  "sourcesOf chunks =
     List.map_filter
       (\<lambda>web. case web of
                Some (Some u, Some t) \<Rightarrow> if u \<noteq> [] \<and> t \<noteq> [] then Some (u, t) else None
              | _ \<Rightarrow> None)
       chunks"

text \<open>
  A template literal converts each interpolated value with \<open>ToString\<close>. On an object
  with an own property \<open>toString\<close> the conversion throws a \<open>TypeError\<close>: a parsed value
  is never callable, and \<open>valueOf\<close>, own or inherited, does not return a primitive
  either. On an array it joins the conversions of the elements, so it throws when one of
  them does. On every other value, and on \<open>undefined\<close>, it returns a string.
\<close>

fun ToStringThrows :: "jsvalue \<Rightarrow> bool" where
  "ToStringThrows (JArray xs) = list_ex ToStringThrows xs"
| "ToStringThrows (JObject ps) = list_ex (\<lambda>p. fst p = ascii ''toString'') ps"
| "ToStringThrows JNull = False"
| "ToStringThrows (JBoolean b) = False"
| "ToStringThrows (JNumber n) = False"
| "ToStringThrows (JString s) = False"

definition interpolationThrows :: "jsvalue option \<Rightarrow> bool" where
  "interpolationThrows v = (case v of None \<Rightarrow> False | Some x \<Rightarrow> ToStringThrows x)"

text \<open>\<open>goodsDescription || '...'\<close>\<close>

definition goodsOrDefault :: "jsvalue option \<Rightarrow> jsvalue" where
  "goodsOrDefault goods =
     (case goods of
        None \<Rightarrow> JString GOODS_UNSPECIFIED
      | Some g \<Rightarrow> if ToBoolean g then g else JString GOODS_UNSPECIFIED)"

text \<open>
  The prompt interpolates the company name, which is a string when the prompt is built,
  \<open>bankName\<close> and \<open>goodsDescription || '...'\<close>.
\<close>

definition promptThrows :: "jsvalue option \<Rightarrow> jsvalue option \<Rightarrow> bool" where
  "promptThrows bank goods \<longleftrightarrow>
     interpolationThrows bank \<or> ToStringThrows (goodsOrDefault goods)"

text \<open>
  An asynchronous function runs up to its first \<open>await\<close> and is resumed with the outcome
  of the awaited call; what it throws rejects its promise. \<open>getCompanyInfo\<close> constructs
  the client, tests the company name and builds the prompt before its \<open>try\<close> block; its
  one \<open>await\<close>, on the search call, is inside the block. The parameter \<open>newClient\<close> is
  what \<open>new GoogleGenAI({ apiKey: process.env.API_KEY })\<close> throws, \<open>None\<close> when it
  returns the client; the constructor throws when no key is set. The parameters \<open>bank\<close>
  and \<open>goods\<close> are \<open>bankName\<close> and \<open>goodsDescription\<close> of the source.
\<close>

datatype rejection = ThrownValue thrown | Raised exception

datatype suspended = Returns CompanyInfo | Throws rejection | Awaits searchRequest

definition getCompanyInfoBegin ::
  "thrown option \<Rightarrow> jsvalue option \<Rightarrow> jsvalue option \<Rightarrow> jsvalue option \<Rightarrow> suspended" where
  "getCompanyInfoBegin newClient companyName bank goods =
     (case newClient of
        Some e \<Rightarrow> Throws (ThrownValue e)
      | None \<Rightarrow>
          (case companyName of
             None \<Rightarrow> Returns \<lparr>info = NO_NAME_INFO, sources = []\<rparr>
           | Some v \<Rightarrow>
               if \<not> ToBoolean v then Returns \<lparr>info = NO_NAME_INFO, sources = []\<rparr>
               else (case v of
                       JString name \<Rightarrow>
                         if trim name = [] then Returns \<lparr>info = NO_NAME_INFO, sources = []\<rparr>
                         else if promptThrows bank goods then Throws (Raised TypeError)
                         else Awaits
                           \<lparr>requestCompany = name, requestBank = bank,
                            requestGoods = goodsOrDefault goods\<rparr>
                     | _ \<Rightarrow> Throws (Raised TypeError))))"

definition getCompanyInfoResume :: "thrown + searchResponse \<Rightarrow> CompanyInfo" where
  "getCompanyInfoResume outcome =
     (case outcome of
        Inl e \<Rightarrow> \<lparr>info = SEARCH_FAILED_INFO, sources = []\<rparr>
      | Inr response \<Rightarrow>
          \<lparr>info =
             (case responseText response of
                None \<Rightarrow> NO_INFO_FOUND
              | Some t \<Rightarrow> if t = [] then NO_INFO_FOUND else t),
           sources =
             sourcesOf (case groundingChunks response of None \<Rightarrow> [] | Some chunks \<Rightarrow> chunks)\<rparr>)"

text \<open>
  The whole call, with the search backend as a parameter: it is rejected (\<open>Inl\<close>) or
  returns a value, which comes with the list of the remote calls that were issued.
\<close>

definition getCompanyInfo ::
  "thrown option \<Rightarrow> (searchRequest \<Rightarrow> thrown + searchResponse) \<Rightarrow> jsvalue option \<Rightarrow>
   jsvalue option \<Rightarrow> jsvalue option \<Rightarrow> rejection + CompanyInfo \<times> searchRequest list" where
  "getCompanyInfo newClient generateContent companyName bank goods =
     (case getCompanyInfoBegin newClient companyName bank goods of
        Returns r \<Rightarrow> Inr (r, [])
      | Throws e \<Rightarrow> Inl e
      | Awaits request \<Rightarrow> Inr (getCompanyInfoResume (generateContent request), [request]))"

section \<open>Numbers\<close>

text \<open>
  A Number is an IEEE 754 double, and each arithmetic operation returns the double that
  is nearest to the exact result, a tie going to the even significand. A positive double
  is \<open>m * 2 ^ (e - 52)\<close> with \<open>2 ^ 52 \<le> m < 2 ^ 53\<close>, where \<open>2 ^ e \<le> x < 2 ^ (e + 1)\<close>.
  The values that occur here are far below the overflow threshold and far above the
  subnormal range, which are left out.
\<close>

fun bitLength :: "nat \<Rightarrow> nat" where
  "bitLength n = (if n = 0 then 0 else Suc (bitLength (n div 2)))"

declare bitLength.simps [simp del]

definition exponent :: "rat \<Rightarrow> int" where
  "exponent x =
     (if 1 \<le> x then int (bitLength (nat \<lfloor>x\<rfloor>)) - 1
      else - int (bitLength (nat (\<lceil>1 / x\<rceil> - 1))))"

definition roundTiesToEven :: "rat \<Rightarrow> int" where
  "roundTiesToEven q =
     (let n = \<lfloor>q\<rfloor>
      in if q - of_int n < 1 / 2 then n
         else if 1 / 2 < q - of_int n then n + 1
         else if even n then n else n + 1)"

definition roundPositive :: "rat \<Rightarrow> rat" where
  "roundPositive x =
     (let ulp = 2 powi (exponent x - 52) in of_int (roundTiesToEven (x / ulp)) * ulp)"

definition roundToDouble :: "rat \<Rightarrow> rat" where
  "roundToDouble x =
     (if x = 0 then 0 else if x < 0 then - roundPositive (- x) else roundPositive x)"

section \<open>Progress estimate of \<open>handleProcessSingleFile\<close>\<close>

text \<open>
  The estimate, operation by operation; \<open>bytes\<close> is the size of the file, which
  \<open>singleFile.size\<close> holds as a Number. The literals are doubles, and so are the product
  \<open>1024 * 1024\<close> and the difference \<open>maxSimulated - currentSimulated\<close>. The remaining-time
  text that a tick also sets is left out.
\<close>

definition sizeMB :: "nat \<Rightarrow> rat" where
  "sizeMB bytes = roundToDouble (roundToDouble (of_nat bytes) / (1024 * 1024))"

definition estimatedSeconds :: "nat \<Rightarrow> int" where
  "estimatedSeconds bytes = \<lceil>roundToDouble (5 + roundToDouble (sizeMB bytes * 2))\<rceil>"








section \<open>Jobs: \<open>processOneFile\<close>\<close>

record File =
  fileName :: jsstring
  fileType :: jsstring
  fileSize :: nat

datatype ProcessingStatus = Pending | Processing | Done | Error

text \<open>
  The text of an error is a string of the program or of a collaborator, or the message of
  a \<open>TypeError\<close> that the engine raises, whose wording the language does not fix.
\<close>

datatype errorText = Message jsstring | EngineMessage exception

text \<open>
  The property \<open>data\<close> of a file first holds what extraction returned and then the object
  \<open>{...data, companyInfo: info, sources}\<close>. Spreading a value that is not an object
  contributes none of the nine properties.
\<close>

datatype fileData =
  Extracted document | Enriched ExtractedData jsstring "(jsstring \<times> jsstring) list"

definition noProperties :: ExtractedData where
  "noProperties =
     \<lparr>beneficiaryName = None, accountNumber = None, swiftCode = None, bankName = None,
      country = None, province = None, city = None, address = None, goodsDescription = None\<rparr>"

definition spread :: "document \<Rightarrow> ExtractedData" where
  "spread doc = (case doc of ObjectDocument d \<Rightarrow> d | _ \<Rightarrow> noProperties)"

text \<open>
  The interface \<open>ProcessableFile\<close>; \<open>fid\<close> and \<open>inputFile\<close> are its properties \<open>id\<close>
  and \<open>file\<close>.
\<close>

record ProcessableFile =
  fid :: jsstring
  inputFile :: File
  status :: ProcessingStatus
  data :: "fileData option"
  error :: "errorText option"

definition UNKNOWN_ERROR_MESSAGE :: jsstring where
  "UNKNOWN_ERROR_MESSAGE =
     [0x062E, 0x0637, 0x0623, 0x0020, 0x063A, 0x064A, 0x0631, 0x0020, 0x0645, 0x0639,
      0x0631, 0x0648, 0x0641, 0x0020, 0x0623, 0x062B, 0x0646, 0x0627, 0x0621, 0x0020,
      0x0627, 0x0644, 0x0645, 0x0639, 0x0627, 0x0644, 0x062C, 0x0629, 0x002E]"

text \<open>\<open>err.message || '...'\<close>, for a value thrown by a collaborator.\<close>

definition messageOr :: "jsstring option \<Rightarrow> errorText" where
  "messageOr m =
     (case m of
        None \<Rightarrow> Message UNKNOWN_ERROR_MESSAGE
      | Some t \<Rightarrow> if t = [] then Message UNKNOWN_ERROR_MESSAGE else Message t)"

fun errorMessage :: "error \<Rightarrow> errorText" where
  "errorMessage (CallFailed (Thrown m)) = messageOr m"
| "errorMessage EmptyResponse = messageOr (Some EMPTY_RESPONSE_MESSAGE)"
| "errorMessage MalformedResponse = messageOr (Some MALFORMED_RESPONSE_MESSAGE)"

fun rejectionMessage :: "rejection \<Rightarrow> errorText" where
  "rejectionMessage (ThrownValue (Thrown m)) = messageOr m"
| "rejectionMessage (Raised e) = EngineMessage e"

text \<open>
  What a job does that others can see, in the order in which it does it: the four updates
  of the collection through \<open>setProcessableFiles\<close>, and the calls it issues.
\<close>

datatype effect =
    MarkProcessing jsstring
  | CallPrepare File
  | CallExtraction Part
  | WriteData jsstring document
  | CallGetCompanyInfo
  | CallSearch searchRequest
  | MarkDone jsstring fileData
  | MarkError jsstring errorText

text \<open>\<open>prev.map(f => f.id === pf.id ? g(f) : f)\<close>\<close>

definition updateFile ::
  "jsstring \<Rightarrow> (ProcessableFile \<Rightarrow> ProcessableFile) \<Rightarrow> ProcessableFile list \<Rightarrow>
   ProcessableFile list" where
  "updateFile i g prev = map (\<lambda>f. if fid f = i then g f else f) prev"

fun applyEffect :: "effect \<Rightarrow> ProcessableFile list \<Rightarrow> ProcessableFile list" where
  "applyEffect (MarkProcessing i) prev =
     updateFile i (\<lambda>f. f\<lparr>status := Processing, error := None\<rparr>) prev"
| "applyEffect (WriteData i d) prev = updateFile i (\<lambda>f. f\<lparr>data := Some (Extracted d)\<rparr>) prev"
| "applyEffect (MarkDone i e) prev = updateFile i (\<lambda>f. f\<lparr>status := Done, data := Some e\<rparr>) prev"
| "applyEffect (MarkError i m) prev =
     updateFile i (\<lambda>f. f\<lparr>status := Error, error := Some m\<rparr>) prev"
| "applyEffect (CallPrepare f) prev = prev"
| "applyEffect (CallExtraction part) prev = prev"
| "applyEffect CallGetCompanyInfo prev = prev"
| "applyEffect (CallSearch request) prev = prev"

fun applyEffects :: "effect list \<Rightarrow> ProcessableFile list \<Rightarrow> ProcessableFile list" where
  "applyEffects [] prev = prev"
| "applyEffects (e # es) prev = applyEffects es (applyEffect e prev)"

text \<open>
  \<open>processOneFile\<close> is an asynchronous function with three \<open>await\<close>s. A stage says at
  which of them the function is suspended; a response is the outcome of the awaited call:
  of \<open>prepareContentPart\<close>, of the extraction backend, of the search backend.
\<close>

datatype stage = AwaitingPart | AwaitingExtraction Part | AwaitingSearch document | Completed

datatype response =
    PartResult "thrown + Part"
  | ExtractionResult "thrown + jsstring option"
  | SearchResult "thrown + searchResponse"

text \<open>The function up to its first \<open>await\<close>.\<close>

definition startOneFile :: "ProcessableFile \<Rightarrow> effect list \<times> stage" where
  "startOneFile pf = ([MarkProcessing (fid pf), CallPrepare (inputFile pf)], AwaitingPart)"

text \<open>
  \<open>getCompanyInfo(data.beneficiaryName, data.bankName, data.goodsDescription)\<close>, up to the
  \<open>await\<close> inside it. On \<open>null\<close> the property reads throw and the call is not made.
\<close>

definition enrichBegin :: "thrown option \<Rightarrow> document \<Rightarrow> suspended" where
  "enrichBegin newClient doc =
     (case doc of
        NullDocument \<Rightarrow> Throws (Raised TypeError)
      | PrimitiveDocument v \<Rightarrow> getCompanyInfoBegin newClient None None None
      | ObjectDocument d \<Rightarrow>
          getCompanyInfoBegin newClient (beneficiaryName d) (bankName d) (goodsDescription d))"

definition markDone :: "jsstring \<Rightarrow> document \<Rightarrow> CompanyInfo \<Rightarrow> effect" where
  "markDone i doc r = MarkDone i (Enriched (spread doc) (info r) (sources r))"

text \<open>
  The function resumed with a response. The \<open>catch\<close> block covers every stage, also a
  rejection of \<open>getCompanyInfo\<close>. A response that is not the one awaited is not accepted
  (\<open>None\<close>).
\<close>

fun resumeOneFile ::
  "unicode_data \<Rightarrow> (jsstring \<Rightarrow> document option) \<Rightarrow> thrown option \<Rightarrow> ProcessableFile \<Rightarrow>
   stage \<Rightarrow> response \<Rightarrow> (effect list \<times> stage) option" where
  "resumeOneFile U JSON_parse newClient pf AwaitingPart (PartResult r) =
     Some (case r of
             Inl (Thrown m) \<Rightarrow> ([MarkError (fid pf) (messageOr m)], Completed)
           | Inr part \<Rightarrow> ([CallExtraction part], AwaitingExtraction part))"
| "resumeOneFile U JSON_parse newClient pf (AwaitingExtraction part) (ExtractionResult r) =
     Some (case extractDataFromFile U JSON_parse (\<lambda>_. r) part of
             Inl e \<Rightarrow> ([MarkError (fid pf) (errorMessage e)], Completed)
           | Inr doc \<Rightarrow>
               (case enrichBegin newClient doc of
                  Returns found \<Rightarrow>
                    ([WriteData (fid pf) doc, CallGetCompanyInfo, markDone (fid pf) doc found],
                     Completed)
                | Throws e \<Rightarrow>
                    (if doc = NullDocument
                     then [WriteData (fid pf) doc, MarkError (fid pf) (rejectionMessage e)]
                     else [WriteData (fid pf) doc, CallGetCompanyInfo,
                           MarkError (fid pf) (rejectionMessage e)],
                     Completed)
                | Awaits request \<Rightarrow>
                    ([WriteData (fid pf) doc, CallGetCompanyInfo, CallSearch request],
                     AwaitingSearch doc)))"
| "resumeOneFile U JSON_parse newClient pf (AwaitingSearch doc) (SearchResult r) =
     Some ([markDone (fid pf) doc (getCompanyInfoResume r)], Completed)"
| "resumeOneFile U JSON_parse newClient pf st r = None"

text \<open>A job run on its own: started, then resumed with one response after the other.\<close>

fun resumeAll ::
  "unicode_data \<Rightarrow> (jsstring \<Rightarrow> document option) \<Rightarrow> thrown option \<Rightarrow> ProcessableFile \<Rightarrow>
   effect list \<times> stage \<Rightarrow> response list \<Rightarrow> (effect list \<times> stage) option" where
  "resumeAll U JSON_parse newClient pf acc [] = Some acc"
| "resumeAll U JSON_parse newClient pf acc (r # rs) =
     (case resumeOneFile U JSON_parse newClient pf (snd acc) r of
        None \<Rightarrow> None
      | Some (es, st) \<Rightarrow> resumeAll U JSON_parse newClient pf (fst acc @ es, st) rs)"

definition processOneFile ::
  "unicode_data \<Rightarrow> (jsstring \<Rightarrow> document option) \<Rightarrow> thrown option \<Rightarrow> ProcessableFile \<Rightarrow>
   response list \<Rightarrow> (effect list \<times> stage) option" where
  "processOneFile U JSON_parse newClient pf rs =
     resumeAll U JSON_parse newClient pf (startOneFile pf) rs"

section \<open>The scheduler: \<open>handleProcessMultiFile\<close>\<close>

definition CONCURRENCY_LIMIT :: nat where
  "CONCURRENCY_LIMIT = 5"

text \<open>
  A promise \<open>processOneFile(file).then(...)\<close> in \<open>activePromises\<close>: the token stands for
  the identity of the object, which \<open>indexOf\<close> compares.
\<close>

record promise =
  token :: nat
  job :: ProcessableFile
  suspendedAt :: stage

text \<open>
  Where the function itself is: suspended at \<open>await Promise.race(activePromises)\<close> with
  no promise of the race settled yet, or with one settled; suspended at the 100 ms timer;
  or returned.
\<close>

datatype loopState = AwaitingRace | RaceSettled | AwaitingTimer | Returned

record scheduler =
  processableFiles :: "ProcessableFile list"
  queue :: "ProcessableFile list"
  activePromises :: "promise list"
  created :: nat
  loop :: loopState
  isLoading :: bool

text \<open>The body of the inner loop, for the file that \<open>queue.shift()\<close> returned.\<close>

definition admitOne :: "ProcessableFile \<Rightarrow> scheduler \<Rightarrow> scheduler" where
  "admitOne pf s =
     s\<lparr>processableFiles := applyEffects (fst (startOneFile pf)) (processableFiles s),
       activePromises :=
         activePromises s @
           [\<lparr>token = created s, job = pf, suspendedAt = snd (startOneFile pf)\<rparr>],
       created := created s + 1\<rparr>"

text \<open>
  The inner loop \<open>while (queue.length > 0 && activePromises.length < CONCURRENCY_LIMIT)\<close>,
  by recursion on the queue.
\<close>

fun admit :: "ProcessableFile list \<Rightarrow> scheduler \<Rightarrow> scheduler" where
  "admit [] s = s\<lparr>queue := []\<rparr>"
| "admit (pf # rest) s =
     (if length (activePromises s) < CONCURRENCY_LIMIT then admit rest (admitOne pf s)
      else s\<lparr>queue := pf # rest\<rparr>)"

text \<open>
  The outer loop from its test to the next \<open>await\<close>, or to the return after
  \<open>setIsLoading(false)\<close>. JavaScript runs this without interruption.
\<close>

definition iterate :: "scheduler \<Rightarrow> scheduler" where
  "iterate s =
     (if queue s = [] \<and> activePromises s = [] then s\<lparr>loop := Returned, isLoading := False\<rparr>
      else
        (let s' = admit (queue s) s
         in if activePromises s' \<noteq> [] then s'\<lparr>loop := AwaitingRace\<rparr>
            else if queue s' \<noteq> [] then s'\<lparr>loop := AwaitingTimer\<rparr>
            else s'\<lparr>loop := Returned, isLoading := False\<rparr>))"

text \<open>\<open>pf.data\<close> as a condition.\<close>

definition hasData :: "ProcessableFile \<Rightarrow> bool" where
  "hasData pf =
     (case data pf of
        None \<Rightarrow> False
      | Some (Extracted NullDocument) \<Rightarrow> False
      | Some (Extracted (PrimitiveDocument v)) \<Rightarrow> primitiveToBoolean v
      | Some _ \<Rightarrow> True)"

datatype started = TooFewFiles | NothingPending | Started scheduler

definition handleProcessMultiFile :: "ProcessableFile list \<Rightarrow> started" where
  "handleProcessMultiFile files =
     (let filesToProcess = filter (\<lambda>pf. status pf = Pending) files
      in if filesToProcess = [] \<and> length (filter hasData files) < 2 then TooFewFiles
         else if filesToProcess = [] then NothingPending
         else Started
           (iterate
              \<lparr>processableFiles = files, queue = filesToProcess, activePromises = [],
               created = 0, loop = RaceSettled, isLoading = True\<rparr>))"

text \<open>
  What happens after the function has suspended: the call awaited by a job settles and the
  job runs on; the \<open>then\<close> callback of a completed job runs and takes its promise out
  of \<open>activePromises\<close>, which settles the race; the function is resumed after the race or
  the timer. Meanwhile the user can remove a file from the collection
  (\<open>handleRemoveMultiFile\<close>); adding files and starting again are disabled while the
  function runs. Any order of these events is allowed.
\<close>

datatype event = Response nat response | Callback nat | Continue | Remove jsstring

text \<open>\<open>activePromises.splice(activePromises.indexOf(promise), 1)\<close>, for a promise of the list.\<close>

fun spliceOut :: "nat \<Rightarrow> promise list \<Rightarrow> promise list" where
  "spliceOut tok [] = []"
| "spliceOut tok (p # ps) = (if token p = tok then ps else p # spliceOut tok ps)"

fun step ::
  "unicode_data \<Rightarrow> (jsstring \<Rightarrow> document option) \<Rightarrow> thrown option \<Rightarrow> scheduler \<Rightarrow> event \<Rightarrow>
   scheduler option" where
  "step U JSON_parse newClient s (Response tok r) =
     (case find (\<lambda>p. token p = tok) (activePromises s) of
        None \<Rightarrow> None
      | Some p \<Rightarrow>
          (case resumeOneFile U JSON_parse newClient (job p) (suspendedAt p) r of
             None \<Rightarrow> None
           | Some (es, st) \<Rightarrow>
               Some (s\<lparr>processableFiles := applyEffects es (processableFiles s),
                       activePromises :=
                         map (\<lambda>q. if token q = tok then q\<lparr>suspendedAt := st\<rparr> else q)
                           (activePromises s)\<rparr>)))"
| "step U JSON_parse newClient s (Callback tok) =
     (case find (\<lambda>p. token p = tok) (activePromises s) of
        None \<Rightarrow> None
      | Some p \<Rightarrow>
          if suspendedAt p = Completed
          then Some (s\<lparr>activePromises := spliceOut tok (activePromises s),
                       loop := (if loop s = AwaitingRace then RaceSettled else loop s)\<rparr>)
          else None)"
| "step U JSON_parse newClient s Continue =
     (if loop s = RaceSettled \<or> loop s = AwaitingTimer then Some (iterate s) else None)"
| "step U JSON_parse newClient s (Remove i) =
     Some (s\<lparr>processableFiles := filter (\<lambda>f. fid f \<noteq> i) (processableFiles s)\<rparr>)"

fun run ::
  "unicode_data \<Rightarrow> (jsstring \<Rightarrow> document option) \<Rightarrow> thrown option \<Rightarrow> scheduler \<Rightarrow>
   event list \<Rightarrow> scheduler option" where
  "run U JSON_parse newClient s [] = Some s"
| "run U JSON_parse newClient s (e # es) =
     (case step U JSON_parse newClient s e of
        None \<Rightarrow> None
      | Some s' \<Rightarrow> run U JSON_parse newClient s' es)"

definition processingCount :: "ProcessableFile list \<Rightarrow> nat" where
  "processingCount files = length (filter (\<lambda>f. status f = Processing) files)"

text \<open>
  What holds of the scheduler between any two events, for the list \<open>pending\<close> of the files
  that were pending at the call. The promises are the jobs admitted and not yet spliced
  out, in the order of admission; the token of a promise is the position of its file in
  \<open>pending\<close>; every file that is marked as processing belongs to a promise whose job has
  not completed; the queue is what is left of \<open>pending\<close>; and while there are promises, the
  function is suspended at the race.
\<close>

definition admissionInvariant :: "ProcessableFile list \<Rightarrow> scheduler \<Rightarrow> bool" where
  "admissionInvariant pending s \<longleftrightarrow>
     distinct (map fid (processableFiles s)) \<and>
     distinct (map fid pending) \<and>
     created s \<le> length pending \<and>
     (\<forall>p \<in> set (activePromises s). token p < created s \<and> job p = pending ! token p) \<and>
     sorted_wrt (<) (map token (activePromises s)) \<and>
     length (activePromises s) \<le> CONCURRENCY_LIMIT \<and>
     (\<forall>f \<in> set (processableFiles s).
        status f = Processing \<longrightarrow>
          (\<exists>p \<in> set (activePromises s). suspendedAt p \<noteq> Completed \<and> fid (job p) = fid f))"

definition schedulerInvariant :: "ProcessableFile list \<Rightarrow> scheduler \<Rightarrow> bool" where
  "schedulerInvariant pending s \<longleftrightarrow>
     admissionInvariant pending s \<and>
     queue s = drop (created s) pending \<and>
     (activePromises s \<noteq> [] \<longrightarrow> loop s = AwaitingRace \<or> loop s = RaceSettled)"

section \<open>Concrete inputs\<close>

text \<open>
  The Basic Latin rows of the two Unicode tables; every other code point is taken as a
  non-letter that maps to itself. On ASCII text the run-time agrees with this table.
\<close>

definition basicLatin :: unicode_data where
  "basicLatin =
     \<lparr>Uppercase_Mapping = (\<lambda>cp. if 0x61 \<le> cp \<and> cp \<le> 0x7A then [cp - 0x20] else [cp]),
      Letter = (\<lambda>cp. (0x41 \<le> cp \<and> cp \<le> 0x5A) \<or> (0x61 \<le> cp \<and> cp \<le> 0x7A))\<rparr>"

text \<open>A parser that knows one text.\<close>

definition parseOnly :: "jsstring \<Rightarrow> document \<Rightarrow> jsstring \<Rightarrow> document option" where
  "parseOnly known doc jsonText = (if jsonText = known then Some doc else None)"

text \<open>A property name or string literal of a JSON text, between quotation marks.\<close>

definition quoted :: "string \<Rightarrow> jsstring" where
  "quoted s = 0x22 # ascii s @ [0x22]"

text \<open>
  A response whose fields need every formatting rule: punctuation in the name, separators
  in the account number, an 8-character SWIFT code in lower case with blanks around it, and
  an empty city.
\<close>

definition exampleText :: jsstring where
  "exampleText =
     ascii ''{'' @ quoted ''beneficiaryName'' @ ascii '':'' @ quoted ''Acme & Co., Ltd.'' @
     ascii '','' @ quoted ''accountNumber'' @ ascii '':'' @ quoted ''GB29 NWBK-6016_1331'' @
     ascii '','' @ quoted ''swiftCode'' @ ascii '':'' @ quoted '' czcbcn2x '' @
     ascii '','' @ quoted ''bankName'' @ ascii '':'' @ quoted ''First Bank'' @
     ascii '','' @ quoted ''country'' @ ascii '':'' @ quoted ''cn'' @
     ascii '','' @ quoted ''city'' @ ascii '':'' @ quoted [] @ ascii ''}''"

definition exampleData :: ExtractedData where
  "exampleData = noProperties
     \<lparr>beneficiaryName := Some (JString (ascii ''Acme & Co., Ltd.'')),
      accountNumber := Some (JString (ascii ''GB29 NWBK-6016_1331'')),
      swiftCode := Some (JString (ascii '' czcbcn2x '')),
      bankName := Some (JString (ascii ''First Bank'')),
      country := Some (JString (ascii ''cn'')),
      city := Some (JString [])\<rparr>"

definition exampleResult :: ExtractedData where
  "exampleResult = noProperties
     \<lparr>beneficiaryName := Some (JString (ascii ''ACME  CO LTD'')),
      accountNumber := Some (JString (ascii ''GB29NWBK60161331'')),
      swiftCode := Some (JString (ascii ''CZCBCN2XXXX'')),
      bankName := Some (JString (ascii ''First Bank'')),
      country := Some (JString (ascii ''CN'')),
      city := Some (JString [])\<rparr>"

definition exampleParse :: "jsstring \<Rightarrow> document option" where
  "exampleParse = parseOnly exampleText (ObjectDocument exampleData)"

definition exampleCall :: "Part \<Rightarrow> thrown + jsstring option" where
  "exampleCall part = Inr (Some exampleText)"

text \<open>A response that is valid JSON and holds a number where the schema asks for a string.\<close>

definition offSchemaText :: jsstring where
  "offSchemaText =
     ascii ''{'' @ quoted ''beneficiaryName'' @ ascii '':'' @ quoted ''A'' @
     ascii '','' @ quoted ''accountNumber'' @ ascii '':'' @ quoted ''1'' @
     ascii '','' @ quoted ''swiftCode'' @ ascii '':'' @ quoted ''B'' @
     ascii '','' @ quoted ''bankName'' @ ascii '':5,'' @
     quoted ''country'' @ ascii '':'' @ quoted ''C'' @ ascii ''}''"

definition offSchemaData :: ExtractedData where
  "offSchemaData = noProperties
     \<lparr>beneficiaryName := Some (JString (ascii ''A'')),
      accountNumber := Some (JString (ascii ''1'')),
      swiftCode := Some (JString (ascii ''B'')),
      bankName := Some (JNumber 5),
      country := Some (JString (ascii ''C''))\<rparr>"

definition offSchemaCall :: "Part \<Rightarrow> thrown + jsstring option" where
  "offSchemaCall part = Inr (Some offSchemaText)"

definition offSchemaParse :: "jsstring \<Rightarrow> document option" where
  "offSchemaParse = parseOnly offSchemaText (ObjectDocument offSchemaData)"

text \<open>
  A response that is valid JSON and holds, as the bank name, an object whose property
  \<open>toString\<close> is a number.
\<close>

definition unprintableText :: jsstring where
  "unprintableText =
     ascii ''{'' @ quoted ''beneficiaryName'' @ ascii '':'' @ quoted ''A'' @
     ascii '','' @ quoted ''bankName'' @ ascii '':{'' @ quoted ''toString'' @ ascii '':1}}''"

definition unprintableData :: ExtractedData where
  "unprintableData = noProperties
     \<lparr>beneficiaryName := Some (JString (ascii ''A'')),
      bankName := Some (JObject [(ascii ''toString'', JNumber 1)])\<rparr>"

definition unprintableCall :: "Part \<Rightarrow> thrown + jsstring option" where
  "unprintableCall part = Inr (Some unprintableText)"

definition unprintableParse :: "jsstring \<Rightarrow> document option" where
  "unprintableParse = parseOnly unprintableText (ObjectDocument unprintableData)"

text \<open>The response \<open>null\<close>, which is valid JSON.\<close>

definition nullCall :: "Part \<Rightarrow> thrown + jsstring option" where
  "nullCall part = Inr (Some (ascii ''null''))"

definition nullParse :: "jsstring \<Rightarrow> document option" where
  "nullParse = parseOnly (ascii ''null'') NullDocument"

text \<open>A pending file, and the search request for the example response.\<close>

definition examplePf :: ProcessableFile where
  "examplePf =
     \<lparr>fid = ascii ''invoice.pdf-1'',
      inputFile = \<lparr>fileName = ascii ''invoice.pdf'', fileType = ascii ''application/pdf'',
                   fileSize = 3145728\<rparr>,
      status = Pending, data = None, error = None\<rparr>"

definition exampleRequest :: searchRequest where
  "exampleRequest =
     \<lparr>requestCompany = ascii ''ACME  CO LTD'',
      requestBank = Some (JString (ascii ''First Bank'')),
      requestGoods = JString GOODS_UNSPECIFIED\<rparr>"

text \<open>
  Six pending files, and the events in which the first job fails at preparation, its
  callback runs and the function goes on.
\<close>

definition pendingFile :: "string \<Rightarrow> ProcessableFile" where
  "pendingFile n =
     \<lparr>fid = ascii n,
      inputFile = \<lparr>fileName = ascii n, fileType = ascii ''application/pdf'', fileSize = 1024\<rparr>,
      status = Pending, data = None, error = None\<rparr>"

definition sixFiles :: "ProcessableFile list" where
  "sixFiles = map pendingFile [''a'', ''b'', ''c'', ''d'', ''e'', ''f'']"

definition sixEvents :: "event list" where
  "sixEvents = [Response 0 (PartResult (Inl (Thrown None))), Callback 0, Continue]"

text \<open>
  What the constructor of the client throws when no API key is set; the wording of the
  message is the library's.
\<close>

definition keyNotSet :: thrown where
  "keyNotSet = Thrown (Some (ascii ''An API Key must be set when running in a browser''))"

text \<open>A search backend that always fails.\<close>

definition failingSearch :: "searchRequest \<Rightarrow> thrown + searchResponse" where
  "failingSearch request = Inl (Thrown (Some (ascii ''429 Too Many Requests'')))"

section \<open>Properties of the string functions\<close>

lemma toUpperCase_Nil: "toUpperCase U [] = []"
  by (simp add: toUpperCase_def StringToCodePoints_def CodePointsToString_def)

lemma removeSeparators_Nil: "removeSeparators [] = []"
  by (simp add: removeSeparators_def)

lemma removeSpecialCharacters_Nil: "removeSpecialCharacters U [] = []"
  by (simp add: removeSpecialCharacters_def)

lemma formatSwiftCode_Nil: "formatSwiftCode U [] = []"
  by (simp add: formatSwiftCode_def trim_def toUpperCase_Nil)

lemma removeSeparators_none: "\<forall>c \<in> set (removeSeparators s). \<not> isSeparator c"
  by (simp add: removeSeparators_def)

lemma codePoints_shape:
  "p \<in> set (codePoints s) \<Longrightarrow>
     (\<exists>c. p = (unat c, [c])) \<or>
     (\<exists>c d. isLeadingSurrogate c \<and> isTrailingSurrogate d \<and>
        p = (UTF16SurrogatePairToCodePoint c d, [c, d]))"
  by (induction s rule: codePoints.induct) (auto split: if_splits)

lemma codePoints_concat:
  assumes "\<forall>p \<in> set segs.
     (\<exists>c. p = (unat c, [c]) \<and> \<not> isLeadingSurrogate c) \<or>
     (\<exists>c d. isLeadingSurrogate c \<and> isTrailingSurrogate d \<and>
        p = (UTF16SurrogatePairToCodePoint c d, [c, d]))"
  shows "codePoints (concat (map snd segs)) = segs"
  using assms
proof (induction segs)
  case Nil
  then show ?case by simp
next
  case (Cons p segs)
  then have IH: "codePoints (concat (map snd segs)) = segs" by simp
  from Cons.prems consider
    (single) c where "p = (unat c, [c])" "\<not> isLeadingSurrogate c"
  | (pair) c d where "isLeadingSurrogate c" "isTrailingSurrogate d"
      "p = (UTF16SurrogatePairToCodePoint c d, [c, d])"
    by auto
  then show ?case
  proof cases
    case single
    show ?thesis
    proof (cases "concat (map snd segs)")
      case Nil
      with IH single show ?thesis by simp
    next
      case (Cons d r)
      with IH single show ?thesis by simp
    qed
  next
    case pair
    with IH show ?thesis by simp
  qed
qed

lemma concat_codePoints: "concat (map snd (codePoints s)) = s"
  by (induction s rule: codePoints.induct) auto

lemma surrogate_not_kept:
  assumes "\<forall>cp. 0xD800 \<le> cp \<and> cp \<le> 0xDFFF \<longrightarrow> \<not> Letter U cp"
    and "isLeadingSurrogate c"
  shows "\<not> keptInName U (unat c)"
proof -
  from assms(2) have "0xD800 \<le> unat c \<and> unat c \<le> 0xDBFF"
    by (simp add: isLeadingSurrogate_def word_le_nat_alt)
  with assms(1) show ?thesis
    by (auto simp add: keptInName_def isDigit_def isWhiteSpace_def)
qed

lemma codePoints_removeSpecialCharacters:
  assumes "\<forall>cp. 0xD800 \<le> cp \<and> cp \<le> 0xDFFF \<longrightarrow> \<not> Letter U cp"
  shows "StringToCodePoints (removeSpecialCharacters U s) =
         filter (keptInName U) (StringToCodePoints s)"
proof -
  let ?kept = "filter (\<lambda>p. keptInName U (fst p)) (codePoints s)"
  have "\<forall>p \<in> set ?kept.
     (\<exists>c. p = (unat c, [c]) \<and> \<not> isLeadingSurrogate c) \<or>
     (\<exists>c d. isLeadingSurrogate c \<and> isTrailingSurrogate d \<and>
        p = (UTF16SurrogatePairToCodePoint c d, [c, d]))"
  proof
    fix p assume p: "p \<in> set ?kept"
    then have "p \<in> set (codePoints s)" and k: "keptInName U (fst p)" by auto
    from codePoints_shape[OF this(1)] show "(\<exists>c. p = (unat c, [c]) \<and> \<not> isLeadingSurrogate c) \<or>
     (\<exists>c d. isLeadingSurrogate c \<and> isTrailingSurrogate d \<and>
        p = (UTF16SurrogatePairToCodePoint c d, [c, d]))"
      using k surrogate_not_kept[OF assms] by auto
  qed
  then have "codePoints (concat (map snd ?kept)) = ?kept" by (rule codePoints_concat)
  then show ?thesis
    by (simp add: StringToCodePoints_def removeSpecialCharacters_def filter_map comp_def)
qed

section \<open>Properties of extraction\<close>

lemma formatField_cases:
  assumes "\<And>f. upd f payload = upd (\<lambda>_. f (get payload)) payload"
    and "upd (\<lambda>_. get payload) payload = payload"
  shows "formatField get upd g payload =
     (if throwsOn (get payload) then Inl TypeError else Inr (upd (formatted g) payload))"
proof (cases "get payload")
  case None
  then show ?thesis using assms(2) assms(1)[of "formatted g"]
    by (simp add: formatField_def throwsOn_def formatted_def)
next
  case (Some v)
  then show ?thesis using assms(2) assms(1)[of "formatted g"]
    by (cases v) (auto simp add: formatField_def throwsOn_def formatted_def)
qed

lemma runStatements_format:
  "runStatements (formatStatements U) payload =
     (if formatThrows payload then Inl TypeError else Inr (formattedData U payload))"
  unfolding formatStatements_def formatThrows_def formattedData_def
  using formatField_cases[of beneficiaryName_update _ beneficiaryName]
        formatField_cases[of accountNumber_update _ accountNumber]
        formatField_cases[of country_update _ country]
        formatField_cases[of province_update _ province]
        formatField_cases[of city_update _ city]
        formatField_cases[of address_update _ address]
        formatField_cases[of swiftCode_update _ swiftCode]
  by simp

lemma parseAndFormat_cases:
  "parseAndFormat U P t =
     (case P t of
        None \<Rightarrow> Inl SyntaxError
      | Some NullDocument \<Rightarrow> Inl TypeError
      | Some (PrimitiveDocument v) \<Rightarrow> Inr (PrimitiveDocument v)
      | Some (ObjectDocument d) \<Rightarrow>
          if formatThrows d then Inl TypeError else Inr (ObjectDocument (formattedData U d)))"
  by (simp add: parseAndFormat_def runStatements_format split: option.splits document.splits)

lemma extract_object:
  assumes "generateContent part = Inr text"
    and "JSON_parse (jsonTextOf text) = Some (ObjectDocument payload)"
    and "extractDataFromFile U JSON_parse generateContent part = Inr result"
  shows "result = ObjectDocument (formattedData U payload) \<and> \<not> formatThrows payload \<and>
         jsonTextOf text \<noteq> []"
  using assms
  by (simp add: extractDataFromFile_def parseAndFormat_cases Let_def split: if_splits)

lemma formatted_string: "g [] = [] \<Longrightarrow> formatted g (Some (JString s)) = Some (JString (g s))"
  by (simp add: formatted_def)

subsection \<open>The examples, evaluated\<close>

lemmas string_eval = ascii_def quoted_def trim_def isWhiteSpace_def isDigit_def isSeparator_def
  removeSeparators_def removeSpecialCharacters_def keptInName_def toUpperCase_def
  StringToCodePoints_def CodePointsToString_def UTF16EncodeCodePoint_def
  isLeadingSurrogate_def isTrailingSurrogate_def basicLatin_def formatSwiftCode_def

lemma exampleText_trim: "jsonTextOf (Some exampleText) = exampleText"
  by (simp add: jsonTextOf_def exampleText_def string_eval)

lemma exampleText_nonempty: "exampleText \<noteq> []"
  by (simp add: exampleText_def string_eval)

lemma example_formatted: "formattedData basicLatin exampleData = exampleResult"
  by (simp add: formattedData_def exampleData_def exampleResult_def noProperties_def
      formatted_def string_eval)

lemma example_no_throw: "\<not> formatThrows exampleData"
  by (simp add: formatThrows_def throwsOn_def exampleData_def noProperties_def)

lemma example_parse: "exampleParse (jsonTextOf (Some exampleText)) = Some (ObjectDocument exampleData)"
  by (simp add: exampleText_trim exampleParse_def parseOnly_def)

lemma offSchemaText_trim: "jsonTextOf (Some offSchemaText) = offSchemaText"
  by (simp add: jsonTextOf_def offSchemaText_def string_eval)

lemma offSchemaText_nonempty: "offSchemaText \<noteq> []"
  by (simp add: offSchemaText_def string_eval)

lemma offSchema_formatted: "formattedData basicLatin offSchemaData = offSchemaData"
  by (simp add: formattedData_def offSchemaData_def noProperties_def formatted_def string_eval)

lemma offSchema_no_throw: "\<not> formatThrows offSchemaData"
  by (simp add: formatThrows_def throwsOn_def offSchemaData_def noProperties_def)

lemma offSchema_parse:
  "offSchemaParse (jsonTextOf (Some offSchemaText)) = Some (ObjectDocument offSchemaData)"
  by (simp add: offSchemaText_trim offSchemaParse_def parseOnly_def)

lemma offSchema_extract:
  "extractDataFromFile basicLatin offSchemaParse offSchemaCall part =
     Inr (ObjectDocument offSchemaData)"
  by (simp add: extractDataFromFile_def offSchemaCall_def offSchemaText_trim
      offSchemaText_nonempty parseAndFormat_cases offSchemaParse_def parseOnly_def
      offSchema_formatted offSchema_no_throw)

lemma unprintableText_trim: "jsonTextOf (Some unprintableText) = unprintableText"
  by (simp add: jsonTextOf_def unprintableText_def string_eval)

lemma unprintableText_nonempty: "unprintableText \<noteq> []"
  by (simp add: unprintableText_def string_eval)

lemma unprintable_formatted: "formattedData basicLatin unprintableData = unprintableData"
  by (simp add: formattedData_def unprintableData_def noProperties_def formatted_def string_eval)

lemma unprintable_no_throw: "\<not> formatThrows unprintableData"
  by (simp add: formatThrows_def throwsOn_def unprintableData_def noProperties_def)

lemma unprintable_extract:
  "extractDataFromFile basicLatin unprintableParse unprintableCall part =
     Inr (ObjectDocument unprintableData)"
  by (simp add: extractDataFromFile_def unprintableCall_def unprintableText_trim
      unprintableText_nonempty parseAndFormat_cases unprintableParse_def parseOnly_def
      unprintable_formatted unprintable_no_throw)

lemma null_extract:
  "extractDataFromFile basicLatin nullParse nullCall part = Inl MalformedResponse"
  by (simp add: extractDataFromFile_def nullCall_def nullParse_def parseOnly_def
      parseAndFormat_cases jsonTextOf_def string_eval)

lemma example_extract:
  "extractDataFromFile basicLatin exampleParse exampleCall part =
     Inr (ObjectDocument exampleResult)"
  by (simp add: extractDataFromFile_def exampleCall_def exampleText_trim exampleText_nonempty
      parseAndFormat_cases exampleParse_def parseOnly_def example_formatted example_no_throw)

lemma formatted_absentFalsyOrString:
  "\<not> throwsOn v \<Longrightarrow> absentFalsyOrString v (formatted g v)"
  by (auto simp add: throwsOn_def absentFalsyOrString_def formatted_def
      split: option.splits jsvalue.splits)

section \<open>Claims about extraction\<close>

text \<open>
  C6. When the payload's account number is a string, the account number of the record
  that \<open>extractDataFromFile\<close> returns is that string without its white space, hyphens
  and underscores: none of these characters is left.
\<close>

theorem account_number_separators_removed:
  assumes "generateContent part = Inr text"
    and "JSON_parse (jsonTextOf text) = Some (ObjectDocument payload)"
    and "accountNumber payload = Some (JString s)"
    and "extractDataFromFile U JSON_parse generateContent part = Inr result"
  shows "\<exists>returned. result = ObjectDocument returned \<and>
           accountNumber returned = Some (JString (removeSeparators s)) \<and>
           (\<forall>c \<in> set (removeSeparators s). \<not> isWhiteSpace (unat c) \<and> c \<noteq> 0x2D \<and> c \<noteq> 0x5F)"
proof -
  from extract_object[OF assms(1,2,4)]
  have r: "result = ObjectDocument (formattedData U payload)" by simp
  have "accountNumber (formattedData U payload) = Some (JString (removeSeparators s))"
    using assms(3) by (simp add: formattedData_def formatted_string removeSeparators_Nil)
  moreover have "\<forall>c \<in> set (removeSeparators s). \<not> isWhiteSpace (unat c) \<and> c \<noteq> 0x2D \<and> c \<noteq> 0x5F"
    using removeSeparators_none[of s] by (simp add: isSeparator_def)
  ultimately show ?thesis using r by simp
qed

text \<open>The same at the example response.\<close>

theorem account_number_separators_removed_witness:
  "exampleCall (Text []) = Inr (Some exampleText) \<and>
   exampleParse (jsonTextOf (Some exampleText)) = Some (ObjectDocument exampleData) \<and>
   accountNumber exampleData = Some (JString (ascii ''GB29 NWBK-6016_1331'')) \<and>
   extractDataFromFile basicLatin exampleParse exampleCall (Text []) =
     Inr (ObjectDocument exampleResult) \<and>
   accountNumber exampleResult = Some (JString (ascii ''GB29NWBK60161331'')) \<and>
   list_all (\<lambda>c. \<not> isWhiteSpace (unat c) \<and> c \<noteq> 0x2D \<and> c \<noteq> 0x5F)
     (ascii ''GB29NWBK60161331'')"
proof -
  have h1: "exampleCall (Text []) = Inr (Some exampleText)" by (simp add: exampleCall_def)
  have h3: "accountNumber exampleData = Some (JString (ascii ''GB29 NWBK-6016_1331''))"
    by (simp add: exampleData_def noProperties_def)
  have e: "removeSeparators (ascii ''GB29 NWBK-6016_1331'') = ascii ''GB29NWBK60161331''"
    by (simp add: string_eval)
  have r: "accountNumber exampleResult = Some (JString (ascii ''GB29NWBK60161331''))"
    by (simp add: exampleResult_def noProperties_def)
  from account_number_separators_removed[OF h1 example_parse h3 example_extract]
  show ?thesis using h1 h3 example_parse example_extract r unfolding e list_all_iff by simp
qed

text \<open>
  C3. When the payload's SWIFT code is a string, the returned code is the string trimmed
  and upper-cased; if that has exactly 8 code units the suffix \<open>XXX\<close> is appended, which
  gives 11 code units, and for every other length nothing else is changed.
\<close>

theorem swift_code_padded_at_length_8:
  assumes "generateContent part = Inr text"
    and "JSON_parse (jsonTextOf text) = Some (ObjectDocument payload)"
    and "swiftCode payload = Some (JString s)"
    and "extractDataFromFile U JSON_parse generateContent part = Inr result"
  shows "\<exists>returned. result = ObjectDocument returned \<and>
           (length (toUpperCase U (trim s)) = 8 \<longrightarrow>
              swiftCode returned = Some (JString (toUpperCase U (trim s) @ ascii ''XXX'')) \<and>
              length (toUpperCase U (trim s) @ ascii ''XXX'') = 11) \<and>
           (length (toUpperCase U (trim s)) \<noteq> 8 \<longrightarrow>
              swiftCode returned = Some (JString (toUpperCase U (trim s))))"
proof -
  from extract_object[OF assms(1,2,4)]
  have r: "result = ObjectDocument (formattedData U payload)" by simp
  have "swiftCode (formattedData U payload) = Some (JString (formatSwiftCode U s))"
    using assms(3) by (simp add: formattedData_def formatted_string formatSwiftCode_Nil)
  then show ?thesis using r by (simp add: formatSwiftCode_def Let_def ascii_def)
qed

text \<open>The same at an 8-character code and at a 1-character code.\<close>

theorem swift_code_padded_at_length_8_witness:
  "exampleCall (Text []) = Inr (Some exampleText) \<and>
   exampleParse (jsonTextOf (Some exampleText)) = Some (ObjectDocument exampleData) \<and>
   swiftCode exampleData = Some (JString (ascii '' czcbcn2x '')) \<and>
   extractDataFromFile basicLatin exampleParse exampleCall (Text []) =
     Inr (ObjectDocument exampleResult) \<and>
   toUpperCase basicLatin (trim (ascii '' czcbcn2x '')) = ascii ''CZCBCN2X'' \<and>
   swiftCode exampleResult = Some (JString (ascii ''CZCBCN2X'' @ ascii ''XXX'')) \<and>
   offSchemaCall (Text []) = Inr (Some offSchemaText) \<and>
   offSchemaParse (jsonTextOf (Some offSchemaText)) = Some (ObjectDocument offSchemaData) \<and>
   swiftCode offSchemaData = Some (JString (ascii ''B'')) \<and>
   extractDataFromFile basicLatin offSchemaParse offSchemaCall (Text []) =
     Inr (ObjectDocument offSchemaData) \<and>
   toUpperCase basicLatin (trim (ascii ''B'')) = ascii ''B''"
proof -
  have h1: "exampleCall (Text []) = Inr (Some exampleText)" by (simp add: exampleCall_def)
  have h3: "swiftCode exampleData = Some (JString (ascii '' czcbcn2x ''))"
    by (simp add: exampleData_def noProperties_def)
  have e: "toUpperCase basicLatin (trim (ascii '' czcbcn2x '')) = ascii ''CZCBCN2X''"
    by (simp add: string_eval)
  have l: "length (ascii ''CZCBCN2X'') = 8" by (simp add: ascii_def)
  have k1: "offSchemaCall (Text []) = Inr (Some offSchemaText)" by (simp add: offSchemaCall_def)
  have k3: "swiftCode offSchemaData = Some (JString (ascii ''B''))"
    by (simp add: offSchemaData_def noProperties_def)
  have f: "toUpperCase basicLatin (trim (ascii ''B'')) = ascii ''B''"
    by (simp add: string_eval)
  from swift_code_padded_at_length_8[OF h1 example_parse h3 example_extract]
    swift_code_padded_at_length_8[OF k1 offSchema_parse k3 offSchema_extract]
  show ?thesis using h1 h3 example_parse example_extract k1 k3 offSchema_parse offSchema_extract f l
    unfolding e by simp
qed

text \<open>
  C4, as stated, fails at the bank name: the code has no statement for it, and the example
  response comes back with \<open>First Bank\<close> in mixed case.
\<close>

theorem bank_name_not_upper_cased:
  "extractDataFromFile basicLatin exampleParse exampleCall (Text []) =
     Inr (ObjectDocument exampleResult) \<and>
   bankName exampleResult = Some (JString (ascii ''First Bank'')) \<and>
   toUpperCase basicLatin (ascii ''First Bank'') = ascii ''FIRST BANK'' \<and>
   ascii ''First Bank'' \<noteq> ascii ''FIRST BANK''"
  by (simp add: example_extract) (simp add: exampleResult_def noProperties_def string_eval)

text \<open>
  C4, amended. In a returned record every string in the fields beneficiary name, country,
  province, city and address is the upper-casing of the payload's string (for the
  beneficiary name, of the payload's string without its special characters); the bank name
  is returned as it was parsed.
\<close>

theorem formatted_text_fields_upper_cased:
  assumes "generateContent part = Inr text"
    and "JSON_parse (jsonTextOf text) = Some (ObjectDocument payload)"
    and "extractDataFromFile U JSON_parse generateContent part = Inr result"
  shows "\<exists>returned. result = ObjectDocument returned \<and>
     (\<forall>s'. beneficiaryName returned = Some (JString s') \<longrightarrow>
        (\<exists>s. beneficiaryName payload = Some (JString s) \<and>
             s' = toUpperCase U (removeSpecialCharacters U s))) \<and>
     (\<forall>s'. country returned = Some (JString s') \<longrightarrow>
        (\<exists>s. country payload = Some (JString s) \<and> s' = toUpperCase U s)) \<and>
     (\<forall>s'. province returned = Some (JString s') \<longrightarrow>
        (\<exists>s. province payload = Some (JString s) \<and> s' = toUpperCase U s)) \<and>
     (\<forall>s'. city returned = Some (JString s') \<longrightarrow>
        (\<exists>s. city payload = Some (JString s) \<and> s' = toUpperCase U s)) \<and>
     (\<forall>s'. address returned = Some (JString s') \<longrightarrow>
        (\<exists>s. address payload = Some (JString s) \<and> s' = toUpperCase U s)) \<and>
     bankName returned = bankName payload"
proof -
  from extract_object[OF assms]
  have r: "result = ObjectDocument (formattedData U payload)" by simp
  have g: "\<And>g v s'. g [] = [] \<Longrightarrow> formatted g v = Some (JString s') \<Longrightarrow>
          \<exists>s. v = Some (JString s) \<and> s' = g s"
    by (auto simp add: formatted_def split: option.splits jsvalue.splits if_splits)
  have "\<forall>s'. beneficiaryName (formattedData U payload) = Some (JString s') \<longrightarrow>
        (\<exists>s. beneficiaryName payload = Some (JString s) \<and>
             s' = toUpperCase U (removeSpecialCharacters U s))"
    using g[of "\<lambda>s. toUpperCase U (removeSpecialCharacters U s)" "beneficiaryName payload"]
    by (simp add: formattedData_def toUpperCase_Nil removeSpecialCharacters_Nil)
  moreover have "\<forall>s'. country (formattedData U payload) = Some (JString s') \<longrightarrow>
        (\<exists>s. country payload = Some (JString s) \<and> s' = toUpperCase U s)"
    using g[of "toUpperCase U" "country payload"] by (simp add: formattedData_def toUpperCase_Nil)
  moreover have "\<forall>s'. province (formattedData U payload) = Some (JString s') \<longrightarrow>
        (\<exists>s. province payload = Some (JString s) \<and> s' = toUpperCase U s)"
    using g[of "toUpperCase U" "province payload"] by (simp add: formattedData_def toUpperCase_Nil)
  moreover have "\<forall>s'. city (formattedData U payload) = Some (JString s') \<longrightarrow>
        (\<exists>s. city payload = Some (JString s) \<and> s' = toUpperCase U s)"
    using g[of "toUpperCase U" "city payload"] by (simp add: formattedData_def toUpperCase_Nil)
  moreover have "\<forall>s'. address (formattedData U payload) = Some (JString s') \<longrightarrow>
        (\<exists>s. address payload = Some (JString s) \<and> s' = toUpperCase U s)"
    using g[of "toUpperCase U" "address payload"] by (simp add: formattedData_def toUpperCase_Nil)
  moreover have "bankName (formattedData U payload) = bankName payload"
    by (simp add: formattedData_def)
  ultimately show ?thesis using r by blast
qed

text \<open>The same at the example response.\<close>

theorem formatted_text_fields_upper_cased_witness:
  "exampleCall (Text []) = Inr (Some exampleText) \<and>
   exampleParse (jsonTextOf (Some exampleText)) = Some (ObjectDocument exampleData) \<and>
   extractDataFromFile basicLatin exampleParse exampleCall (Text []) =
     Inr (ObjectDocument exampleResult) \<and>
   country exampleResult = Some (JString (ascii ''CN'')) \<and>
   country exampleData = Some (JString (ascii ''cn'')) \<and>
   ascii ''CN'' = toUpperCase basicLatin (ascii ''cn'') \<and>
   bankName exampleResult = bankName exampleData"
proof -
  have h1: "exampleCall (Text []) = Inr (Some exampleText)" by (simp add: exampleCall_def)
  have c: "country exampleResult = Some (JString (ascii ''CN''))"
    by (simp add: exampleResult_def noProperties_def)
  from formatted_text_fields_upper_cased[OF h1 example_parse example_extract]
  have "\<exists>s. country exampleData = Some (JString s) \<and> ascii ''CN'' = toUpperCase basicLatin s"
    and b: "bankName exampleResult = bankName exampleData"
    using c by auto
  moreover have "country exampleData = Some (JString (ascii ''cn''))"
    by (simp add: exampleData_def noProperties_def)
  ultimately show ?thesis using h1 example_parse example_extract c by auto
qed

text \<open>
  C5, as stated, fails: the example response has an empty city, and the returned record
  has the city present and empty.
\<close>

theorem empty_field_is_returned:
  "extractDataFromFile basicLatin exampleParse exampleCall (Text []) =
     Inr (ObjectDocument exampleResult) \<and>
   city exampleResult = Some (JString [])"
  by (simp add: example_extract) (simp add: exampleResult_def noProperties_def)

text \<open>
  C5, amended. In a returned record each of the seven formatted fields is missing exactly
  when the payload lacks it, and otherwise is a string or the payload's own falsy value;
  an empty string in the payload is returned as an empty string, so a field can be present
  and empty. Bank name and goods description are returned as parsed.
\<close>

theorem fields_absent_falsy_or_string:
  assumes "generateContent part = Inr text"
    and "JSON_parse (jsonTextOf text) = Some (ObjectDocument payload)"
    and "extractDataFromFile U JSON_parse generateContent part = Inr result"
  shows "\<exists>returned. result = ObjectDocument returned \<and>
     absentFalsyOrString (beneficiaryName payload) (beneficiaryName returned) \<and>
     absentFalsyOrString (accountNumber payload) (accountNumber returned) \<and>
     absentFalsyOrString (swiftCode payload) (swiftCode returned) \<and>
     absentFalsyOrString (country payload) (country returned) \<and>
     absentFalsyOrString (province payload) (province returned) \<and>
     absentFalsyOrString (city payload) (city returned) \<and>
     absentFalsyOrString (address payload) (address returned) \<and>
     bankName returned = bankName payload \<and> goodsDescription returned = goodsDescription payload"
proof -
  from extract_object[OF assms]
  have r: "result = ObjectDocument (formattedData U payload)" and n: "\<not> formatThrows payload"
    by simp_all
  from n show ?thesis unfolding r
    by (simp add: formatThrows_def formattedData_def formatted_absentFalsyOrString)
qed

text \<open>The same at the example response.\<close>

theorem fields_absent_falsy_or_string_witness:
  "exampleCall (Text []) = Inr (Some exampleText) \<and>
   exampleParse (jsonTextOf (Some exampleText)) = Some (ObjectDocument exampleData) \<and>
   extractDataFromFile basicLatin exampleParse exampleCall (Text []) =
     Inr (ObjectDocument exampleResult) \<and>
   absentFalsyOrString (city exampleData) (city exampleResult) \<and>
   city exampleData = Some (JString []) \<and> city exampleResult = Some (JString []) \<and>
   absentFalsyOrString (province exampleData) (province exampleResult) \<and>
   province exampleData = None \<and> province exampleResult = None"
proof -
  have h1: "exampleCall (Text []) = Inr (Some exampleText)" by (simp add: exampleCall_def)
  have c: "city exampleData = Some (JString [])" "city exampleResult = Some (JString [])"
    "province exampleData = None" "province exampleResult = None"
    by (simp_all add: exampleData_def exampleResult_def noProperties_def)
  from fields_absent_falsy_or_string[OF h1 example_parse example_extract]
  show ?thesis using h1 example_parse example_extract c by simp
qed

text \<open>
  C7, as stated, fails in both directions of "exactly when". A response that is valid JSON
  with a number as bank name does not fit \<open>dataExtractionSchema\<close> and is returned
  without an error; the response \<open>null\<close> is parsed by \<open>JSON.parse\<close> and fails with the
  malformed-response error.
\<close>

theorem off_schema_accepted_and_valid_json_rejected:
  "offSchemaCall (Text []) = Inr (Some offSchemaText) \<and>
   jsonTextOf (Some offSchemaText) \<noteq> [] \<and>
   \<not> parsesIntoSchema offSchemaParse (jsonTextOf (Some offSchemaText)) \<and>
   extractDataFromFile basicLatin offSchemaParse offSchemaCall (Text []) =
     Inr (ObjectDocument offSchemaData) \<and>
   nullCall (Text []) = Inr (Some (ascii ''null'')) \<and>
   nullParse (jsonTextOf (Some (ascii ''null''))) = Some NullDocument \<and>
   extractDataFromFile basicLatin nullParse nullCall (Text []) = Inl MalformedResponse"
proof -
  have "\<not> parsesIntoSchema offSchemaParse (jsonTextOf (Some offSchemaText))"
    by (simp add: parsesIntoSchema_def offSchema_parse dataExtractionSchema_def
        offSchemaData_def noProperties_def isStringOrMissing_def)
  moreover have "nullParse (jsonTextOf (Some (ascii ''null''))) = Some NullDocument"
    by (simp add: nullParse_def parseOnly_def jsonTextOf_def string_eval)
  ultimately show ?thesis
    by (simp add: offSchema_extract null_extract offSchemaCall_def nullCall_def
        offSchemaText_trim offSchemaText_nonempty)
qed

text \<open>
  C7, amended. The empty-response error is raised exactly when the call returns and the
  response text is missing or empty after trimming. The malformed-response error is raised
  exactly when the non-empty trimmed text is rejected by \<open>JSON.parse\<close>, is \<open>null\<close>, or is
  an object with a truthy value that is not a string in one of the seven formatted fields.
  An error thrown by the call itself is passed on. In every other case the parsed document
  is returned with the formatting rules applied.
\<close>

theorem extract_outcomes:
  "(extractDataFromFile U JSON_parse generateContent part = Inl EmptyResponse \<longleftrightarrow>
      generateContent part = Inr None \<or>
      (\<exists>t. generateContent part = Inr (Some t) \<and> trim t = [])) \<and>
   (extractDataFromFile U JSON_parse generateContent part = Inl MalformedResponse \<longleftrightarrow>
      (\<exists>text. generateContent part = Inr text \<and> jsonTextOf text \<noteq> [] \<and>
         rejected JSON_parse (jsonTextOf text))) \<and>
   (\<forall>e. extractDataFromFile U JSON_parse generateContent part = Inl (CallFailed e) \<longleftrightarrow>
      generateContent part = Inl e) \<and>
   (\<forall>result. extractDataFromFile U JSON_parse generateContent part = Inr result \<longleftrightarrow>
      (\<exists>text doc. generateContent part = Inr text \<and> jsonTextOf text \<noteq> [] \<and>
         JSON_parse (jsonTextOf text) = Some doc \<and> \<not> rejected JSON_parse (jsonTextOf text) \<and>
         result = formattedDocument U doc))"
proof (cases "generateContent part")
  case (Inl e)
  then show ?thesis by (simp add: extractDataFromFile_def)
next
  case (Inr response)
  show ?thesis
  proof (cases "jsonTextOf response = []")
    case True
    with Inr show ?thesis
      by (cases response) (simp_all add: extractDataFromFile_def jsonTextOf_def)
  next
    case False
    have e: "generateContent part \<noteq> Inr None" "\<And>t. generateContent part = Inr (Some t) \<Longrightarrow> trim t \<noteq> []"
      using Inr False by (auto simp add: jsonTextOf_def split: option.splits)
    show ?thesis
    proof (cases "JSON_parse (jsonTextOf response)")
      case None
      with Inr False e show ?thesis
        by (auto simp add: extractDataFromFile_def parseAndFormat_cases rejected_def)
    next
      case (Some doc)
      with Inr False e show ?thesis
        by (cases doc)
          (auto simp add: extractDataFromFile_def parseAndFormat_cases rejected_def
            formattedDocument_def)
    qed
  qed
qed

text \<open>The same at the response \<open>null\<close> and at the off-schema response.\<close>

theorem extract_outcomes_witness:
  "extractDataFromFile basicLatin nullParse nullCall (Text []) = Inl MalformedResponse \<and>
   nullCall (Text []) = Inr (Some (ascii ''null'')) \<and>
   jsonTextOf (Some (ascii ''null'')) = ascii ''null'' \<and>
   rejected nullParse (ascii ''null'') \<and>
   extractDataFromFile basicLatin offSchemaParse offSchemaCall (Text []) =
     Inr (formattedDocument basicLatin (ObjectDocument offSchemaData))"
proof -
  have a: "nullCall (Text []) = Inr (Some (ascii ''null''))" by (simp add: nullCall_def)
  have b: "jsonTextOf (Some (ascii ''null'')) = ascii ''null''"
    by (simp add: jsonTextOf_def string_eval)
  have c: "rejected nullParse (ascii ''null'')"
    by (simp add: rejected_def nullParse_def parseOnly_def)
  have d: "ascii ''null'' \<noteq> []" by (simp add: ascii_def)
  have "extractDataFromFile basicLatin nullParse nullCall (Text []) = Inl MalformedResponse"
    using extract_outcomes[of basicLatin nullParse nullCall "Text []"] a b c d by auto
  moreover have "extractDataFromFile basicLatin offSchemaParse offSchemaCall (Text []) =
     Inr (formattedDocument basicLatin (ObjectDocument offSchemaData))"
    by (simp add: offSchema_extract formattedDocument_def offSchema_formatted)
  ultimately show ?thesis using a b c by simp
qed

text \<open>
  C10. When the payload's beneficiary name is a string, the returned name is that string
  with every code point that is not a digit, a letter or white space removed, and then
  upper-cased. Given that no surrogate code point is a letter, the code points of the
  stripped string are exactly the digits, letters and white space of the payload's string,
  in order.
\<close>

theorem beneficiary_name_special_characters_removed:
  assumes "generateContent part = Inr text"
    and "JSON_parse (jsonTextOf text) = Some (ObjectDocument payload)"
    and "beneficiaryName payload = Some (JString s)"
    and "extractDataFromFile U JSON_parse generateContent part = Inr result"
  shows "\<exists>returned. result = ObjectDocument returned \<and>
     beneficiaryName returned = Some (JString (toUpperCase U (removeSpecialCharacters U s))) \<and>
     ((\<forall>cp. 0xD800 \<le> cp \<and> cp \<le> 0xDFFF \<longrightarrow> \<not> Letter U cp) \<longrightarrow>
        StringToCodePoints (removeSpecialCharacters U s) =
          filter (\<lambda>cp. isDigit cp \<or> Letter U cp \<or> isWhiteSpace cp) (StringToCodePoints s))"
proof -
  from extract_object[OF assms(1,2,4)]
  have r: "result = ObjectDocument (formattedData U payload)" by simp
  have "beneficiaryName (formattedData U payload) =
          Some (JString (toUpperCase U (removeSpecialCharacters U s)))"
    using assms(3)
    by (simp add: formattedData_def formatted_string toUpperCase_Nil removeSpecialCharacters_Nil)
  moreover have "(\<forall>cp. 0xD800 \<le> cp \<and> cp \<le> 0xDFFF \<longrightarrow> \<not> Letter U cp) \<longrightarrow>
        StringToCodePoints (removeSpecialCharacters U s) =
          filter (\<lambda>cp. isDigit cp \<or> Letter U cp \<or> isWhiteSpace cp) (StringToCodePoints s)"
    using codePoints_removeSpecialCharacters[of U s] by (simp add: keptInName_def[abs_def])
  ultimately show ?thesis using r by simp
qed

text \<open>The same at the example response.\<close>

theorem beneficiary_name_special_characters_removed_witness:
  "exampleCall (Text []) = Inr (Some exampleText) \<and>
   exampleParse (jsonTextOf (Some exampleText)) = Some (ObjectDocument exampleData) \<and>
   beneficiaryName exampleData = Some (JString (ascii ''Acme & Co., Ltd.'')) \<and>
   extractDataFromFile basicLatin exampleParse exampleCall (Text []) =
     Inr (ObjectDocument exampleResult) \<and>
   removeSpecialCharacters basicLatin (ascii ''Acme & Co., Ltd.'') = ascii ''Acme  Co Ltd'' \<and>
   beneficiaryName exampleResult = Some (JString (toUpperCase basicLatin (ascii ''Acme  Co Ltd''))) \<and>
   toUpperCase basicLatin (ascii ''Acme  Co Ltd'') = ascii ''ACME  CO LTD'' \<and>
   (\<forall>cp. \<not> (0xD800 \<le> cp \<and> cp \<le> 0xDFFF \<and> Letter basicLatin cp)) \<and>
   StringToCodePoints (ascii ''Acme  Co Ltd'') =
     filter (\<lambda>cp. isDigit cp \<or> Letter basicLatin cp \<or> isWhiteSpace cp)
       (StringToCodePoints (ascii ''Acme & Co., Ltd.''))"
proof -
  have h1: "exampleCall (Text []) = Inr (Some exampleText)" by (simp add: exampleCall_def)
  have h3: "beneficiaryName exampleData = Some (JString (ascii ''Acme & Co., Ltd.''))"
    by (simp add: exampleData_def noProperties_def)
  have e: "removeSpecialCharacters basicLatin (ascii ''Acme & Co., Ltd.'') = ascii ''Acme  Co Ltd''"
    by (simp add: string_eval)
  have u: "toUpperCase basicLatin (ascii ''Acme  Co Ltd'') = ascii ''ACME  CO LTD''"
    by (simp add: string_eval)
  have l: "\<forall>cp. \<not> (0xD800 \<le> cp \<and> cp \<le> 0xDFFF \<and> Letter basicLatin cp)"
    by (simp add: basicLatin_def)
  from beneficiary_name_special_characters_removed[OF h1 example_parse h3 example_extract]
  show ?thesis using h1 h3 example_parse example_extract l unfolding e u by auto
qed

section \<open>Claims about enrichment\<close>

lemma trim_Nil: "trim [] = []"
  by (simp add: trim_def)

lemma getCompanyInfoBegin_rejected:
  "getCompanyInfoBegin (Some e) companyName bank goods = Throws (ThrownValue e)"
  by (simp add: getCompanyInfoBegin_def)

lemma getCompanyInfoBegin_blank:
  assumes "companyName = None \<or> (\<exists>v. companyName = Some v \<and> \<not> ToBoolean v) \<or>
      (\<exists>s. companyName = Some (JString s) \<and> trim s = [])"
  shows "getCompanyInfoBegin None companyName bank goods =
     Returns \<lparr>info = NO_NAME_INFO, sources = []\<rparr>"
proof -
  from assms consider "companyName = None"
    | v where "companyName = Some v" "\<not> ToBoolean v"
    | s where "companyName = Some (JString s)" "trim s = []" by blast
  then show ?thesis
  proof cases
    case 1
    then show ?thesis by (simp add: getCompanyInfoBegin_def)
  next
    case 2
    then show ?thesis by (simp add: getCompanyInfoBegin_def)
  next
    case 3
    then show ?thesis by (simp add: getCompanyInfoBegin_def)
  qed
qed

lemma getCompanyInfoBegin_name:
  assumes "trim name \<noteq> []"
  shows "getCompanyInfoBegin None (Some (JString name)) bank goods =
     (if promptThrows bank goods then Throws (Raised TypeError)
      else Awaits \<lparr>requestCompany = name, requestBank = bank,
             requestGoods = goodsOrDefault goods\<rparr>)"
proof -
  from assms have "name \<noteq> []" using trim_Nil by auto
  with assms show ?thesis by (simp add: getCompanyInfoBegin_def)
qed

lemma getCompanyInfoBegin_throwsOn:
  assumes "throwsOn companyName"
  shows "getCompanyInfoBegin None companyName bank goods = Throws (Raised TypeError)"
proof (cases companyName)
  case None
  with assms show ?thesis by (simp add: throwsOn_def)
next
  case (Some v)
  with assms show ?thesis by (cases v) (simp_all add: throwsOn_def getCompanyInfoBegin_def)
qed

lemma not_throwsOn_cases:
  assumes "\<not> throwsOn companyName"
  shows "companyName = None \<or> (\<exists>v. companyName = Some v \<and> \<not> ToBoolean v) \<or>
      (\<exists>s. companyName = Some (JString s))"
proof (cases companyName)
  case None
  then show ?thesis by simp
next
  case (Some v)
  with assms show ?thesis by (cases v) (simp_all add: throwsOn_def)
qed

lemma blank_not_throwsOn:
  assumes "companyName = None \<or> (\<exists>v. companyName = Some v \<and> \<not> ToBoolean v) \<or>
      (\<exists>s. companyName = Some (JString s) \<and> trim s = [])"
  shows "\<not> throwsOn companyName"
proof -
  from assms consider "companyName = None"
    | v where "companyName = Some v" "\<not> ToBoolean v"
    | s where "companyName = Some (JString s)" by blast
  then show ?thesis
  proof cases
    case 1
    then show ?thesis by (simp add: throwsOn_def)
  next
    case 2
    then show ?thesis by (cases v) (simp_all add: throwsOn_def)
  next
    case 3
    then show ?thesis by (simp add: throwsOn_def)
  qed
qed

lemma blank_not_name:
  assumes "companyName = None \<or> (\<exists>v. companyName = Some v \<and> \<not> ToBoolean v) \<or>
      (\<exists>s. companyName = Some (JString s) \<and> trim s = [])"
    and "companyName = Some (JString name)"
  shows "trim name = []"
proof -
  from assms have "\<not> ToBoolean (JString name) \<or> trim name = []" by auto
  then show ?thesis using trim_Nil by auto
qed

text \<open>
  C8, as stated, does not hold: with no API key set the constructor of the client throws
  before the name is tested, so the call is rejected even for an empty name; and with a
  bank name that cannot be converted to a string the prompt cannot be built, so the call
  is rejected with a \<open>TypeError\<close>. Both happen outside the \<open>try\<close> block.
\<close>

theorem getCompanyInfo_rejects:
  "getCompanyInfo (Some keyNotSet) failingSearch (Some (JString [])) None None =
     Inl (ThrownValue keyNotSet) \<and>
   getCompanyInfo None failingSearch (Some (JString (ascii ''ACME'')))
     (Some (JObject [(ascii ''toString'', JNumber 1)])) None = Inl (Raised TypeError)"
proof -
  have a: "getCompanyInfo (Some keyNotSet) failingSearch (Some (JString [])) None None =
     Inl (ThrownValue keyNotSet)"
    by (simp add: getCompanyInfo_def getCompanyInfoBegin_rejected)
  have "trim (ascii ''ACME'') \<noteq> []" by (simp add: string_eval)
  from getCompanyInfoBegin_name[OF this]
  have b: "getCompanyInfo None failingSearch (Some (JString (ascii ''ACME'')))
     (Some (JObject [(ascii ''toString'', JNumber 1)])) None = Inl (Raised TypeError)"
    by (simp add: getCompanyInfo_def promptThrows_def interpolationThrows_def)
  show ?thesis by (intro conjI a b)
qed

text \<open>
  C8, amended. Let the client be constructed. Called with a company name that is a
  string, or with a missing or falsy value, and with a bank name and a goods description
  that can be converted to strings, \<open>getCompanyInfo\<close> returns a value. For a missing, empty
  or blank name it returns the fixed placeholder with no sources and issues no remote call,
  whatever the bank name and the goods description are. For any other name it issues one
  call, and when that call fails it returns the explanatory placeholder with no sources.
  What the constructor throws rejects the call, and the call is rejected in exactly three
  cases: the constructor throws, the company name is a truthy value that is not a string,
  or the name is not blank and the prompt cannot be built.
\<close>

theorem getCompanyInfo_outcomes:
  "(newClient = None \<and> \<not> throwsOn companyName \<and> \<not> promptThrows bank goods \<longrightarrow>
      (\<exists>r calls. getCompanyInfo newClient search companyName bank goods = Inr (r, calls))) \<and>
   (newClient = None \<and>
    (companyName = None \<or> (\<exists>v. companyName = Some v \<and> \<not> ToBoolean v) \<or>
     (\<exists>s. companyName = Some (JString s) \<and> trim s = [])) \<longrightarrow>
      getCompanyInfo newClient search companyName bank goods =
        Inr (\<lparr>info = NO_NAME_INFO, sources = []\<rparr>, [])) \<and>
   (newClient = None \<and> companyName = Some (JString name) \<and> trim name \<noteq> [] \<and>
    \<not> promptThrows bank goods \<longrightarrow>
      getCompanyInfo newClient search companyName bank goods =
        Inr (getCompanyInfoResume
               (search \<lparr>requestCompany = name, requestBank = bank,
                         requestGoods = goodsOrDefault goods\<rparr>),
             [\<lparr>requestCompany = name, requestBank = bank,
               requestGoods = goodsOrDefault goods\<rparr>]) \<and>
      (search \<lparr>requestCompany = name, requestBank = bank,
                requestGoods = goodsOrDefault goods\<rparr> = Inl failure \<longrightarrow>
         getCompanyInfo newClient search companyName bank goods =
           Inr (\<lparr>info = SEARCH_FAILED_INFO, sources = []\<rparr>,
                [\<lparr>requestCompany = name, requestBank = bank,
                  requestGoods = goodsOrDefault goods\<rparr>]))) \<and>
   (newClient = Some e \<longrightarrow>
      getCompanyInfo newClient search companyName bank goods = Inl (ThrownValue e)) \<and>
   ((\<exists>x. getCompanyInfo newClient search companyName bank goods = Inl x) \<longleftrightarrow>
      newClient \<noteq> None \<or> throwsOn companyName \<or>
      (\<exists>n. companyName = Some (JString n) \<and> trim n \<noteq> [] \<and> promptThrows bank goods))"
proof -
  let ?blank = "companyName = None \<or> (\<exists>v. companyName = Some v \<and> \<not> ToBoolean v) \<or>
     (\<exists>s. companyName = Some (JString s) \<and> trim s = [])"
  let ?call = "getCompanyInfo newClient search companyName bank goods"
  have blank: "?call = Inr (\<lparr>info = NO_NAME_INFO, sources = []\<rparr>, [])"
    if "newClient = None" ?blank
    unfolding that(1) getCompanyInfo_def getCompanyInfoBegin_blank[OF that(2)] by simp
  have named: "?call =
      (if promptThrows bank goods then Inl (Raised TypeError)
       else Inr (getCompanyInfoResume
               (search \<lparr>requestCompany = n, requestBank = bank,
                         requestGoods = goodsOrDefault goods\<rparr>),
             [\<lparr>requestCompany = n, requestBank = bank,
               requestGoods = goodsOrDefault goods\<rparr>]))"
    if "newClient = None" "companyName = Some (JString n)" "trim n \<noteq> []" for n
    unfolding that(1,2) getCompanyInfo_def getCompanyInfoBegin_name[OF that(3)] by simp
  have throws: "?call = Inl (Raised TypeError)" if "newClient = None" "throwsOn companyName"
    unfolding that(1) getCompanyInfo_def getCompanyInfoBegin_throwsOn[OF that(2)] by simp
  have rejected: "?call = Inl (ThrownValue e)" if "newClient = Some e" for e
    unfolding that getCompanyInfo_def getCompanyInfoBegin_rejected by simp
  have split: "?blank \<or> (\<exists>n. companyName = Some (JString n) \<and> trim n \<noteq> [])"
    if "\<not> throwsOn companyName"
    using not_throwsOn_cases[OF that] by blast
  have c1: "newClient = None \<and> \<not> throwsOn companyName \<and> \<not> promptThrows bank goods \<longrightarrow>
      (\<exists>r calls. ?call = Inr (r, calls))"
  proof (intro impI, elim conjE)
    assume h: "newClient = None" "\<not> throwsOn companyName" "\<not> promptThrows bank goods"
    from split[OF h(2)] show "\<exists>r calls. ?call = Inr (r, calls)"
    proof
      assume ?blank
      from blank[OF h(1) this] show ?thesis by blast
    next
      assume "\<exists>n. companyName = Some (JString n) \<and> trim n \<noteq> []"
      then obtain n where "companyName = Some (JString n)" "trim n \<noteq> []" by blast
      from named[OF h(1) this] h(3) show ?thesis by simp
    qed
  qed
  have c2: "newClient = None \<and> ?blank \<longrightarrow>
      ?call = Inr (\<lparr>info = NO_NAME_INFO, sources = []\<rparr>, [])"
    using blank by blast
  have c3: "newClient = None \<and> companyName = Some (JString name) \<and> trim name \<noteq> [] \<and>
    \<not> promptThrows bank goods \<longrightarrow>
      ?call =
        Inr (getCompanyInfoResume
               (search \<lparr>requestCompany = name, requestBank = bank,
                         requestGoods = goodsOrDefault goods\<rparr>),
             [\<lparr>requestCompany = name, requestBank = bank,
               requestGoods = goodsOrDefault goods\<rparr>]) \<and>
      (search \<lparr>requestCompany = name, requestBank = bank,
                requestGoods = goodsOrDefault goods\<rparr> = Inl failure \<longrightarrow>
         ?call =
           Inr (\<lparr>info = SEARCH_FAILED_INFO, sources = []\<rparr>,
                [\<lparr>requestCompany = name, requestBank = bank,
                  requestGoods = goodsOrDefault goods\<rparr>]))"
  proof (intro impI, elim conjE)
    assume h: "newClient = None" "companyName = Some (JString name)" "trim name \<noteq> []"
      "\<not> promptThrows bank goods"
    from named[OF h(1,2,3)] h(4) have v: "?call =
        Inr (getCompanyInfoResume
               (search \<lparr>requestCompany = name, requestBank = bank,
                         requestGoods = goodsOrDefault goods\<rparr>),
             [\<lparr>requestCompany = name, requestBank = bank,
               requestGoods = goodsOrDefault goods\<rparr>])" by simp
    show "?call =
        Inr (getCompanyInfoResume
               (search \<lparr>requestCompany = name, requestBank = bank,
                         requestGoods = goodsOrDefault goods\<rparr>),
             [\<lparr>requestCompany = name, requestBank = bank,
               requestGoods = goodsOrDefault goods\<rparr>]) \<and>
      (search \<lparr>requestCompany = name, requestBank = bank,
                requestGoods = goodsOrDefault goods\<rparr> = Inl failure \<longrightarrow>
         ?call =
           Inr (\<lparr>info = SEARCH_FAILED_INFO, sources = []\<rparr>,
                [\<lparr>requestCompany = name, requestBank = bank,
                  requestGoods = goodsOrDefault goods\<rparr>]))"
      unfolding v by (simp add: getCompanyInfoResume_def)
  qed
  have c4: "newClient = Some e \<longrightarrow> ?call = Inl (ThrownValue e)"
    using rejected by blast
  have c5: "(\<exists>x. ?call = Inl x) \<longleftrightarrow>
      newClient \<noteq> None \<or> throwsOn companyName \<or>
      (\<exists>n. companyName = Some (JString n) \<and> trim n \<noteq> [] \<and> promptThrows bank goods)"
  proof (cases newClient)
    case (Some e)
    with rejected[OF Some] show ?thesis by simp
  next
    case None
    show ?thesis
    proof (cases "throwsOn companyName")
      case True
      with throws[OF None True] None show ?thesis by simp
    next
      case False
      from split[OF False] show ?thesis
      proof
        assume b: ?blank
        have "\<not> (\<exists>n. companyName = Some (JString n) \<and> trim n \<noteq> [])"
          using blank_not_name[OF b] by blast
        with blank[OF None b] None False show ?thesis by simp
      next
        assume "\<exists>n. companyName = Some (JString n) \<and> trim n \<noteq> []"
        then obtain n where n: "companyName = Some (JString n)" "trim n \<noteq> []" by blast
        from named[OF None n] None False n show ?thesis by simp
      qed
    qed
  qed
  show ?thesis by (intro conjI c1 c2 c3 c4 c5)
qed

text \<open>The same at a name with a failing search call, and at a blank name.\<close>

theorem getCompanyInfo_outcomes_witness:
  "trim (ascii ''ACME'') \<noteq> [] \<and>
   \<not> promptThrows None None \<and>
   failingSearch \<lparr>requestCompany = ascii ''ACME'', requestBank = None,
                   requestGoods = JString GOODS_UNSPECIFIED\<rparr> =
     Inl (Thrown (Some (ascii ''429 Too Many Requests''))) \<and>
   getCompanyInfo None failingSearch (Some (JString (ascii ''ACME''))) None None =
     Inr (\<lparr>info = SEARCH_FAILED_INFO, sources = []\<rparr>,
          [\<lparr>requestCompany = ascii ''ACME'', requestBank = None,
            requestGoods = JString GOODS_UNSPECIFIED\<rparr>]) \<and>
   trim (ascii ''  '') = [] \<and>
   getCompanyInfo None failingSearch (Some (JString (ascii ''  '')))
     (Some (JObject [(ascii ''toString'', JNumber 1)])) None =
     Inr (\<lparr>info = NO_NAME_INFO, sources = []\<rparr>, [])"
proof -
  have b: "trim (ascii ''ACME'') \<noteq> []" "trim (ascii ''  '') = []"
    by (simp_all add: string_eval)
  have g: "goodsOrDefault None = JString GOODS_UNSPECIFIED" by (simp add: goodsOrDefault_def)
  have p: "\<not> promptThrows None None"
    by (simp add: promptThrows_def interpolationThrows_def g)
  have f: "failingSearch \<lparr>requestCompany = ascii ''ACME'', requestBank = None,
                   requestGoods = JString GOODS_UNSPECIFIED\<rparr> =
     Inl (Thrown (Some (ascii ''429 Too Many Requests'')))"
    by (simp add: failingSearch_def)
  note named = getCompanyInfo_outcomes[where newClient = None and search = failingSearch
      and companyName = "Some (JString (ascii ''ACME''))" and name = "ascii ''ACME''"
      and bank = None and goods = None
      and failure = "Thrown (Some (ascii ''429 Too Many Requests''))",
      THEN conjunct2, THEN conjunct2, THEN conjunct1, rule_format, unfolded g]
  have "None = (None :: thrown option) \<and>
      Some (JString (ascii ''ACME'')) = Some (JString (ascii ''ACME'')) \<and>
      trim (ascii ''ACME'') \<noteq> [] \<and> \<not> promptThrows None None"
    using b(1) p by simp
  from named[OF this, THEN conjunct2, rule_format, OF f]
  have d: "getCompanyInfo None failingSearch (Some (JString (ascii ''ACME''))) None None =
     Inr (\<lparr>info = SEARCH_FAILED_INFO, sources = []\<rparr>,
          [\<lparr>requestCompany = ascii ''ACME'', requestBank = None,
            requestGoods = JString GOODS_UNSPECIFIED\<rparr>])" .
  note blank = getCompanyInfo_outcomes[where newClient = None and search = failingSearch
      and companyName = "Some (JString (ascii ''  ''))"
      and bank = "Some (JObject [(ascii ''toString'', JNumber 1)])" and goods = None,
      THEN conjunct2, THEN conjunct1, rule_format]
  have c: "getCompanyInfo None failingSearch (Some (JString (ascii ''  '')))
     (Some (JObject [(ascii ''toString'', JNumber 1)])) None =
     Inr (\<lparr>info = NO_NAME_INFO, sources = []\<rparr>, [])"
    by (rule blank) (simp add: b(2))
  show ?thesis by (intro conjI b p f d c)
qed

section \<open>Claims about the progress estimate\<close>

subsection \<open>Rounding to a double\<close>

lemma bitLength_0 [simp]: "bitLength 0 = 0"
  by (simp add: bitLength.simps[of 0])

lemma bitLength_1 [simp]: "bitLength (Suc 0) = 1"
  by (simp add: bitLength.simps[of "Suc 0"])

lemma bitLength_numeral [simp]:
  "bitLength (numeral k) = Suc (bitLength (numeral k div 2))"
  by (subst bitLength.simps) simp

lemma floor_numeral_quotient [simp]:
  "\<lfloor>numeral a / numeral b :: rat\<rfloor> = numeral a div numeral b"
  using floor_divide_of_int_eq[of "numeral a" "numeral b", where ?'a = rat] by simp

lemma ceiling_numeral_quotient [simp]:
  "\<lceil>numeral a / numeral b :: rat\<rceil> = - (- numeral a div numeral b)"
  using ceiling_divide_eq_div[of "numeral a" "numeral b", where ?'a = rat] by simp

lemma two_powi: "(2::rat) powi e = (if 0 \<le> e then 2 ^ nat e else 1 / 2 ^ nat (- e))"
  by (simp add: power_int_def power_one_over[symmetric] inverse_eq_divide)

lemmas double_eval = roundToDouble_def roundPositive_def exponent_def two_powi
  roundTiesToEven_def Let_def

lemma bitLength_less: "n < 2 ^ bitLength n"
proof (induction n rule: bitLength.induct)
  case (1 n)
  show ?case
  proof (cases "n = 0")
    case True
    then show ?thesis by simp
  next
    case False
    from 1[OF False] have "n div 2 < 2 ^ bitLength (n div 2)" .
    then have "n < 2 * 2 ^ bitLength (n div 2)" by linarith
    with False show ?thesis by (simp add: bitLength.simps[of n])
  qed
qed

lemma bitLength_pos: "0 < n \<Longrightarrow> 0 < bitLength n"
  by (simp add: bitLength.simps[of n])

lemma bitLength_ge: "0 < n \<Longrightarrow> 2 ^ (bitLength n - 1) \<le> n"
proof (induction n rule: bitLength.induct)
  case (1 n)
  then have n: "n \<noteq> 0" by simp
  show ?case
  proof (cases "n div 2 = 0")
    case True
    then show ?thesis using n by (simp add: bitLength.simps[of n])
  next
    case False
    then have p: "0 < n div 2" by simp
    from 1(1)[OF n p] have "2 ^ (bitLength (n div 2) - 1) \<le> n div 2" .
    moreover obtain k where k: "bitLength (n div 2) = Suc k"
      using bitLength_pos[OF p] by (cases "bitLength (n div 2)") simp_all
    ultimately have "2 ^ bitLength (n div 2) \<le> 2 * (n div 2)" by simp
    then have "2 ^ bitLength (n div 2) \<le> n" by linarith
    then show ?thesis using n by (simp add: bitLength.simps[of n])
  qed
qed


lemma exponent_less:
  assumes "0 < x"
  shows "x < 2 powi (exponent x + 1)"
proof (cases "1 \<le> x")
  case True
  define n where "n = nat \<lfloor>x\<rfloor>"
  from True have f: "1 \<le> \<lfloor>x\<rfloor>" by simp
  then have n: "0 < n" by (simp add: n_def)
  have "exponent x + 1 = int (bitLength n)"
    using True by (simp add: exponent_def n_def)
  then have e: "2 powi (exponent x + 1) = (2::rat) ^ bitLength n" by simp
  have "x < of_int \<lfloor>x\<rfloor> + 1" by linarith
  also have "of_int \<lfloor>x\<rfloor> + 1 = (of_nat (n + 1) :: rat)"
  proof -
    have "0 \<le> \<lfloor>x\<rfloor>" using f by linarith
    then have "int n = \<lfloor>x\<rfloor>" unfolding n_def by (rule nat_0_le)
    then have "\<lfloor>x\<rfloor> = int n" by simp
    then show ?thesis by simp
  qed
  also have "\<dots> \<le> of_nat (2 ^ bitLength n)"
  proof (rule of_nat_mono)
    show "n + 1 \<le> 2 ^ bitLength n" using bitLength_less[of n] by simp
  qed
  finally show ?thesis unfolding e by simp
next
  case False
  define m where "m = nat (\<lceil>1 / x\<rceil> - 1)"
  from False assms have "1 < 1 / x" by simp
  then have c: "2 \<le> \<lceil>1 / x\<rceil>" by linarith
  then have m: "0 < m" by (simp add: m_def)
  obtain k where k: "bitLength m = Suc k"
    using bitLength_pos[OF m] by (cases "bitLength m") simp_all
  have "exponent x + 1 = - int k"
    using False k by (simp add: exponent_def m_def)
  then have e: "2 powi (exponent x + 1) = 1 / (2::rat) ^ k"
    by (simp add: power_int_minus field_simps)
  have "(of_nat (2 ^ k) :: rat) \<le> of_nat m"
  proof (rule of_nat_mono)
    show "2 ^ k \<le> m" using bitLength_ge[OF m] k by simp
  qed
  also have "of_nat m = (of_int \<lceil>1 / x\<rceil> :: rat) - 1"
  proof -
    have "0 \<le> \<lceil>1 / x\<rceil> - 1" using c by linarith
    then have "int m = \<lceil>1 / x\<rceil> - 1" unfolding m_def by (rule nat_0_le)
    then have "\<lceil>1 / x\<rceil> = int m + 1" by simp
    then show ?thesis by simp
  qed
  also have "\<dots> < 1 / x" by linarith
  finally have "2 ^ k < 1 / x" by simp
  then have "2 ^ k * x < 1" using assms by (simp add: field_simps)
  then show ?thesis unfolding e by (simp add: field_simps)
qed










subsection \<open>The estimate\<close>









text \<open>
  The bound on the size in \<open>estimatedSeconds_exact\<close> cannot be dropped: at 9007199252119553 bytes the sum
  \<open>5 + sizeMB * 2\<close> is a tie, which is rounded down before the ceiling is taken.
\<close>

lemma estimatedSeconds_above_bound:
  "estimatedSeconds 9007199252119553 = 17179869184 \<and>
   \<lceil>5 + 2 * (9007199252119553 / (1024 * 1024) :: rat)\<rceil> = 17179869185"
  by (simp add: estimatedSeconds_def sizeMB_def double_eval)




section \<open>Claims about a job\<close>

lemma extract_Inr_cases:
  assumes "extractDataFromFile U JSON_parse generateContent part = Inr result"
  shows "(\<exists>v. result = PrimitiveDocument v) \<or>
         (\<exists>d. result = ObjectDocument (formattedData U d) \<and> \<not> formatThrows d)"
proof (cases "generateContent part")
  case (Inl e)
  with assms show ?thesis by (simp add: extractDataFromFile_def)
next
  case (Inr response)
  with assms have n: "jsonTextOf response \<noteq> []"
    and p: "parseAndFormat U JSON_parse (jsonTextOf response) = Inr result"
    by (auto simp add: extractDataFromFile_def Let_def split: if_splits sum.splits)
  show ?thesis
  proof (cases "JSON_parse (jsonTextOf response)")
    case None
    with p show ?thesis by (simp add: parseAndFormat_cases)
  next
    case (Some doc)
    with p show ?thesis
      by (cases doc) (auto simp add: parseAndFormat_cases split: if_splits)
  qed
qed

lemma formatted_not_throwsOn: "\<not> throwsOn v \<Longrightarrow> \<not> throwsOn (formatted g v)"
  by (auto simp add: throwsOn_def formatted_def split: option.splits jsvalue.splits)

lemma getCompanyInfoBegin_cases:
  assumes "\<not> throwsOn companyName" and "\<not> promptThrows bank goods"
  shows "getCompanyInfoBegin None companyName bank goods =
           Returns \<lparr>info = NO_NAME_INFO, sources = []\<rparr> \<or>
         (\<exists>request. getCompanyInfoBegin None companyName bank goods = Awaits request)"
proof -
  from not_throwsOn_cases[OF assms(1)] consider
      "companyName = None \<or> (\<exists>v. companyName = Some v \<and> \<not> ToBoolean v) \<or>
      (\<exists>s. companyName = Some (JString s) \<and> trim s = [])"
      | name where "companyName = Some (JString name)" "trim name \<noteq> []"
      by blast
  then show ?thesis
  proof cases
    case 1
    from getCompanyInfoBegin_blank[OF this] show ?thesis by simp
  next
    case 2
    from getCompanyInfoBegin_name[OF 2(2)] 2(1) assms(2) show ?thesis by simp
  qed
qed

lemma getCompanyInfoBegin_Returns:
  assumes "getCompanyInfoBegin newClient companyName bank goods = Returns found"
  shows "found = \<lparr>info = NO_NAME_INFO, sources = []\<rparr>"
proof (cases newClient)
  case (Some e)
  with assms show ?thesis by (simp add: getCompanyInfoBegin_rejected)
next
  case None
  show ?thesis
  proof (cases "throwsOn companyName")
    case True
    from getCompanyInfoBegin_throwsOn[OF this] assms None show ?thesis by simp
  next
    case False
    from not_throwsOn_cases[OF this] consider
      "companyName = None \<or> (\<exists>v. companyName = Some v \<and> \<not> ToBoolean v) \<or>
      (\<exists>s. companyName = Some (JString s) \<and> trim s = [])"
      | name where "companyName = Some (JString name)" "trim name \<noteq> []"
      by blast
    then show ?thesis
    proof cases
      case 1
      from getCompanyInfoBegin_blank[OF this] assms None show ?thesis by simp
    next
      case 2
      from getCompanyInfoBegin_name[OF 2(2)] 2(1) assms None show ?thesis
        by (simp split: if_splits)
    qed
  qed
qed

lemma enrichBegin_Returns:
  assumes "enrichBegin newClient doc = Returns found"
  shows "found = \<lparr>info = NO_NAME_INFO, sources = []\<rparr>"
  using assms by (cases doc) (auto simp add: enrichBegin_def dest: getCompanyInfoBegin_Returns)

lemma extract_not_null:
  assumes "extractDataFromFile U JSON_parse generateContent part = Inr doc"
  shows "doc \<noteq> NullDocument"
  using extract_Inr_cases[OF assms] by auto

lemma promptThrows_missing: "\<not> promptThrows None None"
  by (simp add: promptThrows_def interpolationThrows_def goodsOrDefault_def)

lemma extract_enrichBegin:
  assumes "extractDataFromFile U JSON_parse generateContent part = Inr doc"
    and "\<not> promptThrows (bankName (spread doc)) (goodsDescription (spread doc))"
  shows "enrichBegin None doc = Returns \<lparr>info = NO_NAME_INFO, sources = []\<rparr> \<or>
         (\<exists>request. enrichBegin None doc = Awaits request)"
proof -
  from extract_Inr_cases[OF assms(1)] consider v where "doc = PrimitiveDocument v"
    | d where "doc = ObjectDocument (formattedData U d)" "\<not> formatThrows d" by blast
  then show ?thesis
  proof cases
    case 1
    then show ?thesis
      using getCompanyInfoBegin_blank[of None None None] by (simp add: enrichBegin_def)
  next
    case 2
    from 2(2) have t: "\<not> throwsOn (beneficiaryName (formattedData U d))"
      by (simp add: formatThrows_def formattedData_def formatted_not_throwsOn)
    from assms(2) have p: "\<not> promptThrows (bankName (formattedData U d))
        (goodsDescription (formattedData U d))"
      unfolding 2(1) by (simp add: spread_def)
    from getCompanyInfoBegin_cases[OF t p] show ?thesis
      unfolding 2(1) by (simp add: enrichBegin_def)
  qed
qed

lemma resumeAll_Completed:
  "resumeAll U JSON_parse newClient pf (es, Completed) (r # rs) = None"
  by simp

lemma resumeAll_append:
  "resumeAll U JSON_parse newClient pf acc (rs @ rs') =
     (case resumeAll U JSON_parse newClient pf acc rs of None \<Rightarrow> None
      | Some acc' \<Rightarrow> resumeAll U JSON_parse newClient pf acc' rs')"
  by (induction rs arbitrary: acc) (auto split: option.splits)

lemma status_WriteData: "map status (applyEffect (WriteData i doc) files) = map status files"
  by (simp add: updateFile_def)

lemma fid_applyEffect: "map fid (applyEffect e files) = map fid files"
  by (cases e) (simp_all add: updateFile_def)

lemma map_updateFile:
  assumes "\<And>f. h (g f) = v"
  shows "map h (updateFile i g files) = map (\<lambda>f. if fid f = i then v else h f) files"
  by (induction files) (simp_all add: updateFile_def assms)

lemma messageOr_text: "t \<noteq> [] \<Longrightarrow> messageOr (Some t) = Message t"
  by (simp add: messageOr_def)

lemma messageOr_missing:
  "m = None \<or> m = Some [] \<Longrightarrow> messageOr m = Message UNKNOWN_ERROR_MESSAGE"
  by (auto simp add: messageOr_def)

lemma errorMessage_own:
  "errorMessage EmptyResponse = Message EMPTY_RESPONSE_MESSAGE"
  "errorMessage MalformedResponse = Message MALFORMED_RESPONSE_MESSAGE"
  by (simp_all add: messageOr_def EMPTY_RESPONSE_MESSAGE_def MALFORMED_RESPONSE_MESSAGE_def)

lemma exampleCall_const: "(\<lambda>_. Inr (Some exampleText)) = exampleCall"
  by (simp add: exampleCall_def fun_eq_iff)

lemma nullCall_const: "(\<lambda>_. Inr (Some (ascii ''null''))) = nullCall"
  by (simp add: nullCall_def fun_eq_iff)

lemma unprintableCall_const: "(\<lambda>_. Inr (Some unprintableText)) = unprintableCall"
  by (simp add: unprintableCall_def fun_eq_iff)

lemma example_enrichBegin:
  "enrichBegin None (ObjectDocument exampleResult) = Awaits exampleRequest"
proof -
  have "trim (ascii ''ACME  CO LTD'') \<noteq> []" by (simp add: string_eval)
  from getCompanyInfoBegin_name[OF this] show ?thesis
    by (simp add: enrichBegin_def exampleResult_def noProperties_def exampleRequest_def
        promptThrows_def interpolationThrows_def goodsOrDefault_def)
qed

lemma unprintable_enrichBegin:
  "enrichBegin None (ObjectDocument unprintableData) = Throws (Raised TypeError)"
proof -
  have "trim (ascii ''A'') \<noteq> []" by (simp add: string_eval)
  from getCompanyInfoBegin_name[OF this] show ?thesis
    by (simp add: enrichBegin_def unprintableData_def noProperties_def
        promptThrows_def interpolationThrows_def)
qed

text \<open>
  C2. A job whose preparation fails marks its file as \<open>Error\<close> with the message of the
  thrown value, or with the fixed text when the value has no message, and is completed.
  A job whose extraction fails does the same with the message of the error, which for the
  two errors that extraction throws itself is their fixed text. A completed job accepts no
  further response, so it never marks the file as \<open>Done\<close>. A job whose extraction succeeds
  writes the extracted document before it calls \<open>getCompanyInfo\<close>. When that call returns
  at once, the job marks the file as \<open>Done\<close> with the no-name placeholder; when it awaits
  the search call, the job marks the file as \<open>Done\<close> once that call returns or fails, after
  a failure with the explanatory placeholder and no sources; when it is rejected, the job
  marks the file as \<open>Error\<close>. With the client constructed and a bank name and a goods
  description that can be converted to strings, the call is not rejected. The last seven
  statements say what the four updates do to the collection: the write stores the
  extracted document in the files with the id of the job and changes no status.
\<close>

theorem job_lifecycle:
  "(t \<noteq> [] \<longrightarrow>
      processOneFile U JSON_parse newClient pf [PartResult (Inl (Thrown (Some t)))] =
        Some ([MarkProcessing (fid pf), CallPrepare (inputFile pf),
               MarkError (fid pf) (Message t)], Completed)) \<and>
   (m = None \<or> m = Some [] \<longrightarrow>
      processOneFile U JSON_parse newClient pf [PartResult (Inl (Thrown m))] =
        Some ([MarkProcessing (fid pf), CallPrepare (inputFile pf),
               MarkError (fid pf) (Message UNKNOWN_ERROR_MESSAGE)], Completed)) \<and>
   (extractDataFromFile U JSON_parse (\<lambda>_. r) part = Inl e \<longrightarrow>
      processOneFile U JSON_parse newClient pf [PartResult (Inr part), ExtractionResult r] =
        Some ([MarkProcessing (fid pf), CallPrepare (inputFile pf), CallExtraction part,
               MarkError (fid pf) (errorMessage e)], Completed)) \<and>
   errorMessage EmptyResponse = Message EMPTY_RESPONSE_MESSAGE \<and>
   errorMessage MalformedResponse = Message MALFORMED_RESPONSE_MESSAGE \<and>
   (t \<noteq> [] \<longrightarrow> errorMessage (CallFailed (Thrown (Some t))) = Message t) \<and>
   (m = None \<or> m = Some [] \<longrightarrow>
      errorMessage (CallFailed (Thrown m)) = Message UNKNOWN_ERROR_MESSAGE) \<and>
   (extractDataFromFile U JSON_parse (\<lambda>_. r) part = Inr doc \<and>
    enrichBegin newClient doc = Returns found \<longrightarrow>
      processOneFile U JSON_parse newClient pf [PartResult (Inr part), ExtractionResult r] =
        Some ([MarkProcessing (fid pf), CallPrepare (inputFile pf), CallExtraction part,
               WriteData (fid pf) doc, CallGetCompanyInfo,
               MarkDone (fid pf) (Enriched (spread doc) NO_NAME_INFO [])], Completed)) \<and>
   (extractDataFromFile U JSON_parse (\<lambda>_. r) part = Inr doc \<and>
    enrichBegin newClient doc = Awaits request \<longrightarrow>
      processOneFile U JSON_parse newClient pf [PartResult (Inr part), ExtractionResult r] =
        Some ([MarkProcessing (fid pf), CallPrepare (inputFile pf), CallExtraction part,
               WriteData (fid pf) doc, CallGetCompanyInfo, CallSearch request],
              AwaitingSearch doc) \<and>
      processOneFile U JSON_parse newClient pf
        [PartResult (Inr part), ExtractionResult r, SearchResult (Inr response)] =
        Some ([MarkProcessing (fid pf), CallPrepare (inputFile pf), CallExtraction part,
               WriteData (fid pf) doc, CallGetCompanyInfo, CallSearch request,
               MarkDone (fid pf)
                 (Enriched (spread doc) (info (getCompanyInfoResume (Inr response)))
                    (sources (getCompanyInfoResume (Inr response))))], Completed) \<and>
      processOneFile U JSON_parse newClient pf
        [PartResult (Inr part), ExtractionResult r, SearchResult (Inl failure)] =
        Some ([MarkProcessing (fid pf), CallPrepare (inputFile pf), CallExtraction part,
               WriteData (fid pf) doc, CallGetCompanyInfo, CallSearch request,
               MarkDone (fid pf) (Enriched (spread doc) SEARCH_FAILED_INFO [])],
              Completed)) \<and>
   (extractDataFromFile U JSON_parse (\<lambda>_. r) part = Inr doc \<and>
    enrichBegin newClient doc = Throws x \<longrightarrow>
      processOneFile U JSON_parse newClient pf [PartResult (Inr part), ExtractionResult r] =
        Some ([MarkProcessing (fid pf), CallPrepare (inputFile pf), CallExtraction part,
               WriteData (fid pf) doc, CallGetCompanyInfo,
               MarkError (fid pf) (rejectionMessage x)], Completed)) \<and>
   (extractDataFromFile U JSON_parse (\<lambda>_. r) part = Inr doc \<and> newClient = None \<and>
    \<not> promptThrows (bankName (spread doc)) (goodsDescription (spread doc)) \<longrightarrow>
      enrichBegin newClient doc = Returns \<lparr>info = NO_NAME_INFO, sources = []\<rparr> \<or>
      (\<exists>request. enrichBegin newClient doc = Awaits request)) \<and>
   (processOneFile U JSON_parse newClient pf rs = Some (es, Completed) \<longrightarrow>
      processOneFile U JSON_parse newClient pf (rs @ later # rs') = None) \<and>
   map status (applyEffect (WriteData (fid pf) doc) files) = map status files \<and>
   map data (applyEffect (WriteData (fid pf) doc) files) =
     map (\<lambda>f. if fid f = fid pf then Some (Extracted doc) else data f) files \<and>
   map status (applyEffect (MarkProcessing (fid pf)) files) =
     map (\<lambda>f. if fid f = fid pf then Processing else status f) files \<and>
   map status (applyEffect (MarkError (fid pf) msg) files) =
     map (\<lambda>f. if fid f = fid pf then Error else status f) files \<and>
   map error (applyEffect (MarkError (fid pf) msg) files) =
     map (\<lambda>f. if fid f = fid pf then Some msg else error f) files \<and>
   map status (applyEffect (MarkDone (fid pf) enriched) files) =
     map (\<lambda>f. if fid f = fid pf then Done else status f) files \<and>
   map data (applyEffect (MarkDone (fid pf) enriched) files) =
     map (\<lambda>f. if fid f = fid pf then Some enriched else data f) files"
proof -
  let ?x = "extractDataFromFile U JSON_parse (\<lambda>_. r) part"
  have c1: "t \<noteq> [] \<longrightarrow>
      processOneFile U JSON_parse newClient pf [PartResult (Inl (Thrown (Some t)))] =
        Some ([MarkProcessing (fid pf), CallPrepare (inputFile pf),
               MarkError (fid pf) (Message t)], Completed)"
    by (simp add: processOneFile_def startOneFile_def messageOr_text)
  have c2: "m = None \<or> m = Some [] \<longrightarrow>
      processOneFile U JSON_parse newClient pf [PartResult (Inl (Thrown m))] =
        Some ([MarkProcessing (fid pf), CallPrepare (inputFile pf),
               MarkError (fid pf) (Message UNKNOWN_ERROR_MESSAGE)], Completed)"
    by (simp add: processOneFile_def startOneFile_def messageOr_missing)
  have c3: "?x = Inl e \<longrightarrow>
      processOneFile U JSON_parse newClient pf [PartResult (Inr part), ExtractionResult r] =
        Some ([MarkProcessing (fid pf), CallPrepare (inputFile pf), CallExtraction part,
               MarkError (fid pf) (errorMessage e)], Completed)"
    by (simp add: processOneFile_def startOneFile_def)
  have c4: "errorMessage EmptyResponse = Message EMPTY_RESPONSE_MESSAGE"
    by (rule errorMessage_own)
  have c5: "errorMessage MalformedResponse = Message MALFORMED_RESPONSE_MESSAGE"
    by (rule errorMessage_own)
  have c6: "t \<noteq> [] \<longrightarrow> errorMessage (CallFailed (Thrown (Some t))) = Message t"
    by (simp add: messageOr_text)
  have c7: "m = None \<or> m = Some [] \<longrightarrow>
      errorMessage (CallFailed (Thrown m)) = Message UNKNOWN_ERROR_MESSAGE"
    by (simp add: messageOr_missing)
  have c8: "?x = Inr doc \<and> enrichBegin newClient doc = Returns found \<longrightarrow>
      processOneFile U JSON_parse newClient pf [PartResult (Inr part), ExtractionResult r] =
        Some ([MarkProcessing (fid pf), CallPrepare (inputFile pf), CallExtraction part,
               WriteData (fid pf) doc, CallGetCompanyInfo,
               MarkDone (fid pf) (Enriched (spread doc) NO_NAME_INFO [])], Completed)"
  proof (intro impI, elim conjE)
    assume h: "?x = Inr doc" "enrichBegin newClient doc = Returns found"
    from enrichBegin_Returns[OF h(2)] have "found = \<lparr>info = NO_NAME_INFO, sources = []\<rparr>" .
    with h show "processOneFile U JSON_parse newClient pf
        [PartResult (Inr part), ExtractionResult r] =
        Some ([MarkProcessing (fid pf), CallPrepare (inputFile pf), CallExtraction part,
               WriteData (fid pf) doc, CallGetCompanyInfo,
               MarkDone (fid pf) (Enriched (spread doc) NO_NAME_INFO [])], Completed)"
      by (simp add: processOneFile_def startOneFile_def markDone_def)
  qed
  have c9: "?x = Inr doc \<and> enrichBegin newClient doc = Awaits request \<longrightarrow>
      processOneFile U JSON_parse newClient pf [PartResult (Inr part), ExtractionResult r] =
        Some ([MarkProcessing (fid pf), CallPrepare (inputFile pf), CallExtraction part,
               WriteData (fid pf) doc, CallGetCompanyInfo, CallSearch request],
              AwaitingSearch doc) \<and>
      processOneFile U JSON_parse newClient pf
        [PartResult (Inr part), ExtractionResult r, SearchResult (Inr response)] =
        Some ([MarkProcessing (fid pf), CallPrepare (inputFile pf), CallExtraction part,
               WriteData (fid pf) doc, CallGetCompanyInfo, CallSearch request,
               MarkDone (fid pf)
                 (Enriched (spread doc) (info (getCompanyInfoResume (Inr response)))
                    (sources (getCompanyInfoResume (Inr response))))], Completed) \<and>
      processOneFile U JSON_parse newClient pf
        [PartResult (Inr part), ExtractionResult r, SearchResult (Inl failure)] =
        Some ([MarkProcessing (fid pf), CallPrepare (inputFile pf), CallExtraction part,
               WriteData (fid pf) doc, CallGetCompanyInfo, CallSearch request,
               MarkDone (fid pf) (Enriched (spread doc) SEARCH_FAILED_INFO [])],
              Completed)"
    by (simp add: processOneFile_def startOneFile_def markDone_def getCompanyInfoResume_def)
  have c10: "?x = Inr doc \<and> enrichBegin newClient doc = Throws x \<longrightarrow>
      processOneFile U JSON_parse newClient pf [PartResult (Inr part), ExtractionResult r] =
        Some ([MarkProcessing (fid pf), CallPrepare (inputFile pf), CallExtraction part,
               WriteData (fid pf) doc, CallGetCompanyInfo,
               MarkError (fid pf) (rejectionMessage x)], Completed)"
  proof (intro impI, elim conjE)
    assume h: "?x = Inr doc" "enrichBegin newClient doc = Throws x"
    from extract_not_null[OF h(1)] have "doc \<noteq> NullDocument" .
    with h show "processOneFile U JSON_parse newClient pf
        [PartResult (Inr part), ExtractionResult r] =
        Some ([MarkProcessing (fid pf), CallPrepare (inputFile pf), CallExtraction part,
               WriteData (fid pf) doc, CallGetCompanyInfo,
               MarkError (fid pf) (rejectionMessage x)], Completed)"
      by (simp add: processOneFile_def startOneFile_def)
  qed
  have c11: "?x = Inr doc \<and> newClient = None \<and>
    \<not> promptThrows (bankName (spread doc)) (goodsDescription (spread doc)) \<longrightarrow>
      enrichBegin newClient doc = Returns \<lparr>info = NO_NAME_INFO, sources = []\<rparr> \<or>
      (\<exists>request. enrichBegin newClient doc = Awaits request)"
    using extract_enrichBegin[of U JSON_parse "\<lambda>_. r" part doc] by blast
  have c12: "processOneFile U JSON_parse newClient pf rs = Some (es, Completed) \<longrightarrow>
      processOneFile U JSON_parse newClient pf (rs @ later # rs') = None"
    by (simp add: processOneFile_def resumeAll_append)
  have c13: "map status (applyEffect (WriteData (fid pf) doc) files) = map status files"
    by (rule status_WriteData)
  have c14: "map data (applyEffect (WriteData (fid pf) doc) files) =
     map (\<lambda>f. if fid f = fid pf then Some (Extracted doc) else data f) files"
    unfolding applyEffect.simps by (rule map_updateFile) simp
  have c15: "map status (applyEffect (MarkProcessing (fid pf)) files) =
     map (\<lambda>f. if fid f = fid pf then Processing else status f) files"
    unfolding applyEffect.simps by (rule map_updateFile) simp
  have c16: "map status (applyEffect (MarkError (fid pf) msg) files) =
     map (\<lambda>f. if fid f = fid pf then Error else status f) files"
    unfolding applyEffect.simps by (rule map_updateFile) simp
  have c17: "map error (applyEffect (MarkError (fid pf) msg) files) =
     map (\<lambda>f. if fid f = fid pf then Some msg else error f) files"
    unfolding applyEffect.simps by (rule map_updateFile) simp
  have c18: "map status (applyEffect (MarkDone (fid pf) enriched) files) =
     map (\<lambda>f. if fid f = fid pf then Done else status f) files"
    unfolding applyEffect.simps by (rule map_updateFile) simp
  have c19: "map data (applyEffect (MarkDone (fid pf) enriched) files) =
     map (\<lambda>f. if fid f = fid pf then Some enriched else data f) files"
    unfolding applyEffect.simps by (rule map_updateFile) simp
  show ?thesis
    by (intro conjI c1 c2 c3 c4 c5 c6 c7 c8 c9 c10 c11 c12 c13 c14 c15 c16 c17 c18 c19)
qed

text \<open>
  The same for a preparation that fails with a message, for the response \<open>null\<close>, for the
  example response with a failing search call, and for the response whose bank name cannot
  be converted to a string; and the collection after each of the three completed jobs.
\<close>

theorem job_lifecycle_witness:
  "processOneFile basicLatin exampleParse None examplePf
     [PartResult (Inl (Thrown (Some (ascii ''read failed''))))] =
     Some ([MarkProcessing (fid examplePf), CallPrepare (inputFile examplePf),
            MarkError (fid examplePf) (Message (ascii ''read failed''))], Completed) \<and>
   extractDataFromFile basicLatin nullParse (\<lambda>_. Inr (Some (ascii ''null''))) (Text []) =
     Inl MalformedResponse \<and>
   processOneFile basicLatin nullParse None examplePf
     [PartResult (Inr (Text [])), ExtractionResult (Inr (Some (ascii ''null'')))] =
     Some ([MarkProcessing (fid examplePf), CallPrepare (inputFile examplePf),
            CallExtraction (Text []),
            MarkError (fid examplePf) (Message MALFORMED_RESPONSE_MESSAGE)], Completed) \<and>
   processOneFile basicLatin nullParse None examplePf
     ([PartResult (Inr (Text [])), ExtractionResult (Inr (Some (ascii ''null'')))] @
      SearchResult (Inl (Thrown None)) # []) = None \<and>
   extractDataFromFile basicLatin exampleParse (\<lambda>_. Inr (Some exampleText)) (Text []) =
     Inr (ObjectDocument exampleResult) \<and>
   enrichBegin None (ObjectDocument exampleResult) = Awaits exampleRequest \<and>
   processOneFile basicLatin exampleParse None examplePf
     [PartResult (Inr (Text [])), ExtractionResult (Inr (Some exampleText)),
      SearchResult (Inl (Thrown None))] =
     Some ([MarkProcessing (fid examplePf), CallPrepare (inputFile examplePf),
            CallExtraction (Text []), WriteData (fid examplePf) (ObjectDocument exampleResult),
            CallGetCompanyInfo, CallSearch exampleRequest,
            MarkDone (fid examplePf) (Enriched exampleResult SEARCH_FAILED_INFO [])],
           Completed) \<and>
   map data (applyEffect (WriteData (fid examplePf) (ObjectDocument exampleResult))
     [examplePf\<lparr>status := Processing\<rparr>]) = [Some (Extracted (ObjectDocument exampleResult))] \<and>
   map status (applyEffect (WriteData (fid examplePf) (ObjectDocument exampleResult))
     [examplePf\<lparr>status := Processing\<rparr>]) = [Processing] \<and>
   extractDataFromFile basicLatin unprintableParse (\<lambda>_. Inr (Some unprintableText)) (Text []) =
     Inr (ObjectDocument unprintableData) \<and>
   enrichBegin None (ObjectDocument unprintableData) = Throws (Raised TypeError) \<and>
   processOneFile basicLatin unprintableParse None examplePf
     [PartResult (Inr (Text [])), ExtractionResult (Inr (Some unprintableText))] =
     Some ([MarkProcessing (fid examplePf), CallPrepare (inputFile examplePf),
            CallExtraction (Text []),
            WriteData (fid examplePf) (ObjectDocument unprintableData), CallGetCompanyInfo,
            MarkError (fid examplePf) (EngineMessage TypeError)], Completed) \<and>
   applyEffects
     [MarkProcessing (fid examplePf), CallPrepare (inputFile examplePf),
      CallExtraction (Text []), WriteData (fid examplePf) (ObjectDocument exampleResult),
      CallGetCompanyInfo, CallSearch exampleRequest,
      MarkDone (fid examplePf) (Enriched exampleResult SEARCH_FAILED_INFO [])] [examplePf] =
     [examplePf\<lparr>status := Done,
        data := Some (Enriched exampleResult SEARCH_FAILED_INFO [])\<rparr>] \<and>
   applyEffects
     [MarkProcessing (fid examplePf), CallPrepare (inputFile examplePf),
      CallExtraction (Text []),
      MarkError (fid examplePf) (Message MALFORMED_RESPONSE_MESSAGE)] [examplePf] =
     [examplePf\<lparr>status := Error, error := Some (Message MALFORMED_RESPONSE_MESSAGE)\<rparr>] \<and>
   applyEffects
     [MarkProcessing (fid examplePf), CallPrepare (inputFile examplePf),
      CallExtraction (Text []),
      WriteData (fid examplePf) (ObjectDocument unprintableData), CallGetCompanyInfo,
      MarkError (fid examplePf) (EngineMessage TypeError)] [examplePf] =
     [examplePf\<lparr>status := Error, data := Some (Extracted (ObjectDocument unprintableData)),
        error := Some (EngineMessage TypeError)\<rparr>]"
proof -
  have k1: "applyEffects
     [MarkProcessing (fid examplePf), CallPrepare (inputFile examplePf),
      CallExtraction (Text []), WriteData (fid examplePf) (ObjectDocument exampleResult),
      CallGetCompanyInfo, CallSearch exampleRequest,
      MarkDone (fid examplePf) (Enriched exampleResult SEARCH_FAILED_INFO [])] [examplePf] =
     [examplePf\<lparr>status := Done,
        data := Some (Enriched exampleResult SEARCH_FAILED_INFO [])\<rparr>]"
    by (simp add: updateFile_def examplePf_def)
  have k2: "applyEffects
     [MarkProcessing (fid examplePf), CallPrepare (inputFile examplePf),
      CallExtraction (Text []),
      MarkError (fid examplePf) (Message MALFORMED_RESPONSE_MESSAGE)] [examplePf] =
     [examplePf\<lparr>status := Error, error := Some (Message MALFORMED_RESPONSE_MESSAGE)\<rparr>]"
    by (simp add: updateFile_def examplePf_def)
  have k3: "applyEffects
     [MarkProcessing (fid examplePf), CallPrepare (inputFile examplePf),
      CallExtraction (Text []),
      WriteData (fid examplePf) (ObjectDocument unprintableData), CallGetCompanyInfo,
      MarkError (fid examplePf) (EngineMessage TypeError)] [examplePf] =
     [examplePf\<lparr>status := Error, data := Some (Extracted (ObjectDocument unprintableData)),
        error := Some (EngineMessage TypeError)\<rparr>]"
    by (simp add: updateFile_def examplePf_def)
  have n: "ascii ''read failed'' \<noteq> []" by (simp add: ascii_def)
  note a = job_lifecycle[where U = basicLatin and JSON_parse = exampleParse
      and newClient = None and pf = examplePf and t = "ascii ''read failed''",
      THEN conjunct1, rule_format, OF n]
  note N = job_lifecycle[where U = basicLatin and JSON_parse = nullParse and newClient = None
      and pf = examplePf and r = "Inr (Some (ascii ''null''))" and part = "Text []"
      and e = MalformedResponse
      and rs = "[PartResult (Inr (Text [])), ExtractionResult (Inr (Some (ascii ''null'')))]"
      and es = "[MarkProcessing (fid examplePf), CallPrepare (inputFile examplePf),
            CallExtraction (Text []),
            MarkError (fid examplePf) (Message MALFORMED_RESPONSE_MESSAGE)]"
      and later = "SearchResult (Inl (Thrown None))" and rs' = "[]"]
  have y: "extractDataFromFile basicLatin nullParse (\<lambda>_. Inr (Some (ascii ''null''))) (Text []) =
     Inl MalformedResponse"
    by (simp add: nullCall_const null_extract)
  note b = N[THEN conjunct2, THEN conjunct2, THEN conjunct1, rule_format, OF y, unfolded N[THEN conjunct2, THEN conjunct2, THEN conjunct2, THEN conjunct2, THEN conjunct1]]
  note c = N[THEN conjunct2, THEN conjunct2, THEN conjunct2, THEN conjunct2, THEN conjunct2, THEN conjunct2, THEN conjunct2, THEN conjunct2, THEN conjunct2, THEN conjunct2, THEN conjunct2, THEN conjunct1, rule_format, OF b]
  note T = job_lifecycle[where U = basicLatin and JSON_parse = exampleParse
      and newClient = None and pf = examplePf and r = "Inr (Some exampleText)"
      and part = "Text []" and doc = "ObjectDocument exampleResult"
      and request = exampleRequest and failure = "Thrown None"]
  have x: "extractDataFromFile basicLatin exampleParse (\<lambda>_. Inr (Some exampleText)) (Text []) =
     Inr (ObjectDocument exampleResult)"
    by (simp add: exampleCall_const example_extract)
  note d = T[THEN conjunct2, THEN conjunct2, THEN conjunct2, THEN conjunct2, THEN conjunct2, THEN conjunct2, THEN conjunct2, THEN conjunct2, THEN conjunct1, rule_format, OF conjI[OF x example_enrichBegin],
      THEN conjunct2, THEN conjunct2, unfolded spread_def document.case]
  note W = job_lifecycle[where pf = examplePf and doc = "ObjectDocument exampleResult"
      and files = "[examplePf\<lparr>status := Processing\<rparr>]"]
  have f: "map data (applyEffect (WriteData (fid examplePf) (ObjectDocument exampleResult))
     [examplePf\<lparr>status := Processing\<rparr>]) = [Some (Extracted (ObjectDocument exampleResult))]"
    unfolding W[THEN conjunct2, THEN conjunct2, THEN conjunct2, THEN conjunct2, THEN conjunct2, THEN conjunct2, THEN conjunct2, THEN conjunct2, THEN conjunct2, THEN conjunct2, THEN conjunct2, THEN conjunct2, THEN conjunct2, THEN conjunct1] by simp
  have g: "map status (applyEffect (WriteData (fid examplePf) (ObjectDocument exampleResult))
     [examplePf\<lparr>status := Processing\<rparr>]) = [Processing]"
    unfolding W[THEN conjunct2, THEN conjunct2, THEN conjunct2, THEN conjunct2, THEN conjunct2, THEN conjunct2, THEN conjunct2, THEN conjunct2, THEN conjunct2, THEN conjunct2, THEN conjunct2, THEN conjunct2, THEN conjunct1] by simp
  note P = job_lifecycle[where U = basicLatin and JSON_parse = unprintableParse
      and newClient = None and pf = examplePf and r = "Inr (Some unprintableText)"
      and part = "Text []" and doc = "ObjectDocument unprintableData"
      and x = "Raised TypeError"]
  have z: "extractDataFromFile basicLatin unprintableParse (\<lambda>_. Inr (Some unprintableText))
      (Text []) = Inr (ObjectDocument unprintableData)"
    by (simp add: unprintableCall_const unprintable_extract)
  note h = P[THEN conjunct2, THEN conjunct2, THEN conjunct2, THEN conjunct2, THEN conjunct2, THEN conjunct2, THEN conjunct2, THEN conjunct2, THEN conjunct2, THEN conjunct1, rule_format, OF conjI[OF z unprintable_enrichBegin],
      unfolded rejectionMessage.simps]
  show ?thesis
    by (intro conjI a y b c x example_enrichBegin d f g z unprintable_enrichBegin h k1 k2 k3)
qed

section \<open>Claims about the scheduler\<close>

lemma fid_applyEffects: "map fid (applyEffects es files) = map fid files"
  by (induction es arbitrary: files) (simp_all add: fid_applyEffect)

lemma length_applyEffects: "length (applyEffects es files) = length files"
  using fid_applyEffects[of es files] by (metis length_map)

lemma drop_Cons_nth:
  assumes "drop n xs = y # ys"
  shows "n < length xs \<and> xs ! n = y \<and> drop (Suc n) xs = ys"
proof -
  from assms have n: "n < length xs" by (metis drop_all list.distinct(1) not_le)
  from Cons_nth_drop_Suc[OF n] assms show ?thesis using n by simp
qed

lemma processing_bounded:
  assumes "admissionInvariant pending s"
  shows "processingCount (processableFiles s) \<le> CONCURRENCY_LIMIT"
proof -
  let ?F = "filter (\<lambda>f. status f = Processing) (processableFiles s)"
  from assms have d: "distinct (map fid (processableFiles s))"
    and w: "\<forall>f \<in> set (processableFiles s). status f = Processing \<longrightarrow>
          (\<exists>p \<in> set (activePromises s). suspendedAt p \<noteq> Completed \<and> fid (job p) = fid f)"
    and l: "length (activePromises s) \<le> CONCURRENCY_LIMIT"
    unfolding admissionInvariant_def by blast+
  from d have "distinct (map fid ?F)" by (rule distinct_map_filter)
  then have "card (set (map fid ?F)) = length (map fid ?F)" by (rule distinct_card)
  then have "length ?F = card (set (map fid ?F))" by (simp only: length_map)
  also have "set (map fid ?F) \<subseteq> (\<lambda>p. fid (job p)) ` set (activePromises s)"
  proof
    fix x assume "x \<in> set (map fid ?F)"
    then obtain f where f: "f \<in> set (processableFiles s)" "status f = Processing" "x = fid f"
      by auto
    with w obtain p where "p \<in> set (activePromises s)" "fid (job p) = fid f" by blast
    with f(3) show "x \<in> (\<lambda>p. fid (job p)) ` set (activePromises s)" by force
  qed
  then have "card (set (map fid ?F)) \<le> card ((\<lambda>p. fid (job p)) ` set (activePromises s))"
    by (simp add: card_mono)
  also have "\<dots> \<le> card (set (activePromises s))" by (simp add: card_image_le)
  also have "\<dots> \<le> length (activePromises s)" by (rule card_length)
  finally show ?thesis using l by (simp add: processingCount_def)
qed

lemma status_applyEffect_nth:
  "k < length files \<Longrightarrow>
     status (applyEffect e files ! k) =
       (case e of
          MarkProcessing i \<Rightarrow> if fid (files ! k) = i then Processing else status (files ! k)
        | MarkDone i d \<Rightarrow> if fid (files ! k) = i then Done else status (files ! k)
        | MarkError i m \<Rightarrow> if fid (files ! k) = i then Error else status (files ! k)
        | _ \<Rightarrow> status (files ! k))"
  by (cases e) (simp_all add: updateFile_def)

lemma fid_applyEffect_nth: "k < length files \<Longrightarrow> fid (applyEffect e files ! k) = fid (files ! k)"
  using fid_applyEffect[of e files] by (metis length_map nth_map)

lemma length_applyEffect: "length (applyEffect e files) = length files"
  using fid_applyEffect[of e files] by (metis length_map)

lemma resume_status:
  assumes "resumeOneFile U JSON_parse newClient pf st r = Some (es, st')" and "k < length files"
    and "status (applyEffects es files ! k) = Processing"
  shows "status (files ! k) = Processing \<and> (st' = Completed \<longrightarrow> fid (files ! k) \<noteq> fid pf)"
  using assms
  by (cases "(U, JSON_parse, newClient, pf, st, r)" rule: resumeOneFile.cases)
    (auto simp add: status_applyEffect_nth fid_applyEffect_nth length_applyEffect markDone_def
      simp del: applyEffect.simps split: sum.splits thrown.splits suspended.splits if_splits)

lemma admissionInvariantD:
  assumes "admissionInvariant pending s"
  shows "distinct (map fid (processableFiles s))"
    and "distinct (map fid pending)"
    and "created s \<le> length pending"
    and "\<And>p. p \<in> set (activePromises s) \<Longrightarrow> token p < created s \<and> job p = pending ! token p"
    and "sorted_wrt (<) (map token (activePromises s))"
    and "length (activePromises s) \<le> CONCURRENCY_LIMIT"
    and "\<And>f. f \<in> set (processableFiles s) \<Longrightarrow> status f = Processing \<Longrightarrow>
          \<exists>p \<in> set (activePromises s). suspendedAt p \<noteq> Completed \<and> fid (job p) = fid f"
  using assms unfolding admissionInvariant_def by blast+

lemma admissionInvariantI:
  assumes "distinct (map fid (processableFiles s))"
    and "distinct (map fid pending)"
    and "created s \<le> length pending"
    and "\<And>p. p \<in> set (activePromises s) \<Longrightarrow> token p < created s \<and> job p = pending ! token p"
    and "sorted_wrt (<) (map token (activePromises s))"
    and "length (activePromises s) \<le> CONCURRENCY_LIMIT"
    and "\<And>f. f \<in> set (processableFiles s) \<Longrightarrow> status f = Processing \<Longrightarrow>
          \<exists>p \<in> set (activePromises s). suspendedAt p \<noteq> Completed \<and> fid (job p) = fid f"
  shows "admissionInvariant pending s"
  using assms unfolding admissionInvariant_def by blast

lemma admissionInvariant_fields [simp]:
  "admissionInvariant pending (s\<lparr>queue := q\<rparr>) = admissionInvariant pending s"
  "admissionInvariant pending (s\<lparr>loop := l\<rparr>) = admissionInvariant pending s"
  "admissionInvariant pending (s\<lparr>isLoading := b\<rparr>) = admissionInvariant pending s"
  by (simp_all add: admissionInvariant_def)

lemma files_admitOne:
  "processableFiles (admitOne pf s) = applyEffect (MarkProcessing (fid pf)) (processableFiles s)"
  by (simp add: admitOne_def startOneFile_def)

lemma promises_admitOne:
  "activePromises (admitOne pf s) =
     activePromises s @ [\<lparr>token = created s, job = pf, suspendedAt = AwaitingPart\<rparr>]"
  by (simp add: admitOne_def startOneFile_def)

lemma admitOne_invariant:
  assumes inv: "admissionInvariant pending s"
    and q: "drop (created s) pending = pf # rest"
    and l: "length (activePromises s) < CONCURRENCY_LIMIT"
  shows "admissionInvariant pending (admitOne pf s)"
proof (rule admissionInvariantI)
  note D = admissionInvariantD[OF inv]
  from drop_Cons_nth[OF q] have c: "created s < length pending" "pending ! created s = pf"
    by simp_all
  show "distinct (map fid (processableFiles (admitOne pf s)))"
    using D(1) by (simp add: admitOne_def fid_applyEffects)
  show "distinct (map fid pending)" by (rule D(2))
  show "created (admitOne pf s) \<le> length pending" using c by (simp add: admitOne_def)
  show "token p < created (admitOne pf s) \<and> job p = pending ! token p"
    if "p \<in> set (activePromises (admitOne pf s))" for p
    using that D(4) c by (auto simp add: admitOne_def less_Suc_eq)
  show "sorted_wrt (<) (map token (activePromises (admitOne pf s)))"
    using D(5) D(4) by (auto simp add: admitOne_def sorted_wrt_append)
  show "length (activePromises (admitOne pf s)) \<le> CONCURRENCY_LIMIT"
    using l by (simp add: admitOne_def)
  show "\<exists>p \<in> set (activePromises (admitOne pf s)). suspendedAt p \<noteq> Completed \<and> fid (job p) = fid f"
    if f: "f \<in> set (processableFiles (admitOne pf s))" "status f = Processing" for f
  proof -
    let ?files = "processableFiles s"
    from f(1) obtain k where k: "k < length ?files"
      "f = applyEffect (MarkProcessing (fid pf)) ?files ! k"
      unfolding files_admitOne in_set_conv_nth length_applyEffect by blast
    have fk: "fid f = fid (?files ! k)" unfolding k(2) by (rule fid_applyEffect_nth[OF k(1)])
    show ?thesis
    proof (cases "fid (?files ! k) = fid pf")
      case True
      then show ?thesis using fk by (simp add: promises_admitOne)
    next
      case False
      with f(2) status_applyEffect_nth[OF k(1), of "MarkProcessing (fid pf)"]
      have "status (?files ! k) = Processing"
        unfolding k(2) by simp
      with D(7)[of "?files ! k"] k(1)
      obtain p where "p \<in> set (activePromises s)" "suspendedAt p \<noteq> Completed"
        "fid (job p) = fid (?files ! k)" by auto
      then show ?thesis using fk by (auto simp add: promises_admitOne)
    qed
  qed
qed

lemma admit_invariant:
  assumes "admissionInvariant pending s" and "q = drop (created s) pending"
  shows "admissionInvariant pending (admit q s) \<and>
         queue (admit q s) = drop (created (admit q s)) pending \<and>
         loop (admit q s) = loop s \<and>
         (queue (admit q s) = [] \<or> length (activePromises (admit q s)) = CONCURRENCY_LIMIT) \<and>
         (activePromises s \<noteq> [] \<longrightarrow> activePromises (admit q s) \<noteq> [])"
  using assms
proof (induction q arbitrary: s)
  case Nil
  from Nil(2)[symmetric] Nil(1) show ?case by simp
next
  case (Cons pf rest)
  show ?case
  proof (cases "length (activePromises s) < CONCURRENCY_LIMIT")
    case True
    from Cons.prems(2) have q: "drop (created s) pending = pf # rest" by simp
    from admitOne_invariant[OF Cons.prems(1) q True]
    have i: "admissionInvariant pending (admitOne pf s)" .
    from drop_Cons_nth[OF q] have "rest = drop (created (admitOne pf s)) pending"
      by (simp add: admitOne_def)
    from Cons.IH[OF i this]
    have ih: "admissionInvariant pending (admit rest (admitOne pf s))"
      "queue (admit rest (admitOne pf s)) = drop (created (admit rest (admitOne pf s))) pending"
      "loop (admit rest (admitOne pf s)) = loop (admitOne pf s)"
      "queue (admit rest (admitOne pf s)) = [] \<or>
         length (activePromises (admit rest (admitOne pf s))) = CONCURRENCY_LIMIT"
      "activePromises (admitOne pf s) \<noteq> [] \<longrightarrow> activePromises (admit rest (admitOne pf s)) \<noteq> []"
      by blast+
    have e: "admit (pf # rest) s = admit rest (admitOne pf s)" using True by simp
    have l: "loop (admitOne pf s) = loop s" by (simp add: admitOne_def)
    have n: "activePromises (admitOne pf s) \<noteq> []" by (simp add: promises_admitOne)
    from ih l n show ?thesis unfolding e by simp
  next
    case False
    with admissionInvariantD(6)[OF Cons.prems(1)]
    have "length (activePromises s) = CONCURRENCY_LIMIT" by simp
    with False Cons.prems(1) Cons.prems(2)[symmetric] show ?thesis by auto
  qed
qed

lemma iterate_invariant:
  assumes "schedulerInvariant pending s"
  shows "schedulerInvariant pending (iterate s)"
proof (cases "queue s = [] \<and> activePromises s = []")
  case True
  with assms show ?thesis
    by (simp add: iterate_def schedulerInvariant_def)
next
  case False
  from assms have i: "admissionInvariant pending s" and q: "queue s = drop (created s) pending"
    by (simp_all add: schedulerInvariant_def)
  let ?s = "admit (queue s) s"
  from admit_invariant[OF i q]
  have a: "admissionInvariant pending ?s" and b: "queue ?s = drop (created ?s) pending"
    by blast+
  from False have it: "iterate s =
        (if activePromises ?s \<noteq> [] then ?s\<lparr>loop := AwaitingRace\<rparr>
         else if queue ?s \<noteq> [] then ?s\<lparr>loop := AwaitingTimer\<rparr>
         else ?s\<lparr>loop := Returned, isLoading := False\<rparr>)"
    unfolding iterate_def Let_def by (rule if_not_P)
  from a b show ?thesis unfolding it schedulerInvariant_def by simp
qed

lemma find_in_set: "find P ps = Some p \<Longrightarrow> p \<in> set ps \<and> P p"
  by (induction ps) (auto split: if_splits)

lemma splice_keeps:
  "find (\<lambda>p. token p = tok) ps = Some p \<Longrightarrow> q \<in> set ps \<Longrightarrow> q \<noteq> p \<Longrightarrow> q \<in> set (spliceOut tok ps)"
  by (induction ps) (auto split: if_splits)

lemma set_splice: "set (spliceOut tok ps) \<subseteq> set ps"
  by (induction ps) auto

lemma length_splice:
  "find (\<lambda>p. token p = tok) ps = Some p \<Longrightarrow> Suc (length (spliceOut tok ps)) = length ps"
  by (induction ps) (auto split: if_splits)

lemma sorted_splice:
  "sorted_wrt (<) (map token ps) \<Longrightarrow> sorted_wrt (<) (map token (spliceOut tok ps))"
proof (induction ps)
  case Nil
  then show ?case by simp
next
  case (Cons p ps)
  then show ?case using set_splice[of tok ps] by auto
qed

lemma response_invariant:
  assumes inv: "schedulerInvariant pending s"
    and f: "find (\<lambda>p. token p = tok) (activePromises s) = Some p"
    and r: "resumeOneFile U JSON_parse newClient (job p) (suspendedAt p) r = Some (es, st)"
  shows "schedulerInvariant pending
     (s\<lparr>processableFiles := applyEffects es (processableFiles s),
        activePromises :=
          map (\<lambda>q. if token q = tok then q\<lparr>suspendedAt := st\<rparr> else q) (activePromises s)\<rparr>)"
    (is "schedulerInvariant pending ?s")
proof -
  from inv have core: "admissionInvariant pending s"
    and q: "queue s = drop (created s) pending"
    and lp: "activePromises s \<noteq> [] \<longrightarrow> loop s = AwaitingRace \<or> loop s = RaceSettled"
    by (simp_all add: schedulerInvariant_def)
  note D = admissionInvariantD[OF core]
  let ?upd = "\<lambda>q. if token q = tok then q\<lparr>suspendedAt := st\<rparr> else q"
  from find_in_set[OF f] have p: "p \<in> set (activePromises s)" "token p = tok" by simp_all
  have tk: "token \<circ> ?upd = token" by (auto simp add: fun_eq_iff)
  have core': "admissionInvariant pending ?s"
  proof (rule admissionInvariantI)
    show "distinct (map fid (processableFiles ?s))" using D(1) by (simp add: fid_applyEffects)
    show "distinct (map fid pending)" by (rule D(2))
    show "created ?s \<le> length pending" using D(3) by simp
    show "token x < created ?s \<and> job x = pending ! token x"
      if "x \<in> set (activePromises ?s)" for x
      using that D(4) by auto
    show "sorted_wrt (<) (map token (activePromises ?s))" using D(5) by (simp add: tk)
    show "length (activePromises ?s) \<le> CONCURRENCY_LIMIT" using D(6) by simp
    show "\<exists>x \<in> set (activePromises ?s). suspendedAt x \<noteq> Completed \<and> fid (job x) = fid f'"
      if f': "f' \<in> set (processableFiles ?s)" "status f' = Processing" for f'
    proof -
      let ?files = "processableFiles s"
      from f'(1) obtain k where k: "k < length ?files" "f' = applyEffects es ?files ! k"
        by (auto simp add: in_set_conv_nth length_applyEffects)
      from resume_status[OF r k(1)] f'(2) k(2)
      have old: "status (?files ! k) = Processing"
        and fin: "st = Completed \<longrightarrow> fid (?files ! k) \<noteq> fid (job p)" by simp_all
      have fk: "fid f' = fid (?files ! k)"
        using fid_applyEffects[of es ?files] k by (metis length_map nth_map)
      from D(7)[of "?files ! k"] k(1) old obtain p0 where p0: "p0 \<in> set (activePromises s)"
        "suspendedAt p0 \<noteq> Completed" "fid (job p0) = fid (?files ! k)" by auto
      show ?thesis
      proof (cases "token p0 = tok")
        case True
        with D(4)[OF p0(1)] D(4)[OF p(1)] p(2) have "job p0 = job p" by simp
        with p0(3) fin have "st \<noteq> Completed" by auto
        moreover have "?upd p0 \<in> set (activePromises ?s)" using p0(1) by simp
        ultimately show ?thesis using True p0(3) fk by (intro bexI[of _ "?upd p0"]) simp_all
      next
        case False
        then have "?upd p0 = p0" by simp
        moreover have "?upd p0 \<in> set (activePromises ?s)" using p0(1) by simp
        ultimately show ?thesis using p0 fk by (intro bexI[of _ p0]) simp_all
      qed
    qed
  qed
  with q lp show ?thesis by (simp add: schedulerInvariant_def)
qed

lemma callback_invariant:
  assumes inv: "schedulerInvariant pending s"
    and f: "find (\<lambda>p. token p = tok) (activePromises s) = Some p"
    and c: "suspendedAt p = Completed"
  shows "schedulerInvariant pending
     (s\<lparr>activePromises := spliceOut tok (activePromises s),
        loop := (if loop s = AwaitingRace then RaceSettled else loop s)\<rparr>)"
    (is "schedulerInvariant pending ?s")
proof -
  from inv have core: "admissionInvariant pending s"
    and q: "queue s = drop (created s) pending"
    and lp: "activePromises s \<noteq> [] \<longrightarrow> loop s = AwaitingRace \<or> loop s = RaceSettled"
    by (simp_all add: schedulerInvariant_def)
  note D = admissionInvariantD[OF core]
  from find_in_set[OF f] have p: "p \<in> set (activePromises s)" by simp
  have core': "admissionInvariant pending ?s"
  proof (rule admissionInvariantI)
    show "distinct (map fid (processableFiles ?s))" using D(1) by simp
    show "distinct (map fid pending)" by (rule D(2))
    show "created ?s \<le> length pending" using D(3) by simp
    show "token x < created ?s \<and> job x = pending ! token x"
      if "x \<in> set (activePromises ?s)" for x
      using that D(4) set_splice[of tok "activePromises s"] by auto
    show "sorted_wrt (<) (map token (activePromises ?s))" using D(5) by (simp add: sorted_splice)
    show "length (activePromises ?s) \<le> CONCURRENCY_LIMIT"
      using D(6) length_splice[OF f] by simp
    show "\<exists>x \<in> set (activePromises ?s). suspendedAt x \<noteq> Completed \<and> fid (job x) = fid f'"
      if f': "f' \<in> set (processableFiles ?s)" "status f' = Processing" for f'
    proof -
      from D(7)[of f'] f' obtain p0 where p0: "p0 \<in> set (activePromises s)"
        "suspendedAt p0 \<noteq> Completed" "fid (job p0) = fid f'" by auto
      with c have "p0 \<noteq> p" by auto
      from splice_keeps[OF f p0(1) this] p0 show ?thesis by auto
    qed
  qed
  from p lp have "loop s = AwaitingRace \<or> loop s = RaceSettled" by auto
  with core' q show ?thesis by (auto simp add: schedulerInvariant_def)
qed

lemma remove_invariant:
  assumes inv: "schedulerInvariant pending s"
  shows "schedulerInvariant pending
     (s\<lparr>processableFiles := filter (\<lambda>f. fid f \<noteq> i) (processableFiles s)\<rparr>)"
    (is "schedulerInvariant pending ?s")
proof -
  from inv have core: "admissionInvariant pending s"
    and q: "queue s = drop (created s) pending"
    and lp: "activePromises s \<noteq> [] \<longrightarrow> loop s = AwaitingRace \<or> loop s = RaceSettled"
    by (simp_all add: schedulerInvariant_def)
  note D = admissionInvariantD[OF core]
  have "admissionInvariant pending ?s"
  proof (rule admissionInvariantI)
    show "distinct (map fid (processableFiles ?s))"
      using distinct_map_filter[OF D(1)] by simp
    show "distinct (map fid pending)" by (rule D(2))
    show "created ?s \<le> length pending" using D(3) by simp
    show "token x < created ?s \<and> job x = pending ! token x"
      if "x \<in> set (activePromises ?s)" for x
      using that D(4) by simp
    show "sorted_wrt (<) (map token (activePromises ?s))" using D(5) by simp
    show "length (activePromises ?s) \<le> CONCURRENCY_LIMIT" using D(6) by simp
    show "\<exists>x \<in> set (activePromises ?s). suspendedAt x \<noteq> Completed \<and> fid (job x) = fid f'"
      if "f' \<in> set (processableFiles ?s)" "status f' = Processing" for f'
      using that D(7)[of f'] by simp
  qed
  with q lp show ?thesis by (simp add: schedulerInvariant_def)
qed

lemma step_invariant:
  assumes "schedulerInvariant pending s" and "step U JSON_parse newClient s ev = Some s'"
  shows "schedulerInvariant pending s'"
proof (cases ev)
  case (Response tok r)
  with assms(2) obtain p es st where
    "find (\<lambda>p. token p = tok) (activePromises s) = Some p"
    "resumeOneFile U JSON_parse newClient (job p) (suspendedAt p) r = Some (es, st)"
    "s' = s\<lparr>processableFiles := applyEffects es (processableFiles s),
        activePromises :=
          map (\<lambda>q. if token q = tok then q\<lparr>suspendedAt := st\<rparr> else q) (activePromises s)\<rparr>"
    by (auto split: option.splits)
  with response_invariant[OF assms(1) this(1) this(2)] show ?thesis by simp
next
  case (Callback tok)
  with assms(2) obtain p where
    "find (\<lambda>p. token p = tok) (activePromises s) = Some p" "suspendedAt p = Completed"
    "s' = s\<lparr>activePromises := spliceOut tok (activePromises s),
        loop := (if loop s = AwaitingRace then RaceSettled else loop s)\<rparr>"
    by (auto split: option.splits if_splits)
  with callback_invariant[OF assms(1) this(1) this(2)] show ?thesis by simp
next
  case Continue
  with assms(2) have "s' = iterate s" by (auto split: if_splits)
  with iterate_invariant[OF assms(1)] show ?thesis by simp
next
  case (Remove i)
  with assms(2) have "s' = s\<lparr>processableFiles := filter (\<lambda>f. fid f \<noteq> i) (processableFiles s)\<rparr>"
    by simp
  with remove_invariant[OF assms(1)] show ?thesis by simp
qed

lemma run_invariant:
  assumes "schedulerInvariant pending s" and "run U JSON_parse newClient s evs = Some s'"
  shows "schedulerInvariant pending s'"
  using assms
proof (induction evs arbitrary: s)
  case Nil
  then show ?case by simp
next
  case (Cons ev evs)
  from Cons.prems(2) obtain s1 where s1: "step U JSON_parse newClient s ev = Some s1"
    "run U JSON_parse newClient s1 evs = Some s'" by (auto split: option.splits)
  from Cons.IH[OF step_invariant[OF Cons.prems(1) s1(1)] s1(2)] show ?case .
qed

lemma start_invariant:
  assumes "distinct (map fid files)" and "\<forall>f \<in> set files. status f \<noteq> Processing"
    and "handleProcessMultiFile files = Started s0"
  shows "schedulerInvariant (filter (\<lambda>pf. status pf = Pending) files) s0"
proof -
  let ?pending = "filter (\<lambda>pf. status pf = Pending) files"
  let ?b = "\<lparr>processableFiles = files, queue = ?pending, activePromises = [],
               created = 0, loop = RaceSettled, isLoading = True\<rparr>"
  from assms(3) have s0: "s0 = iterate ?b"
    by (auto simp add: handleProcessMultiFile_def Let_def split: if_splits)
  have "distinct (map fid ?pending)" using assms(1) by (rule distinct_map_filter)
  with assms(1,2) have "schedulerInvariant ?pending ?b"
    by (simp add: schedulerInvariant_def admissionInvariant_def)
  from iterate_invariant[OF this] show ?thesis unfolding s0 .
qed

lemma admit_promises: "p \<in> set (activePromises s) \<Longrightarrow> p \<in> set (activePromises (admit q s))"
proof (induction q arbitrary: s)
  case Nil
  then show ?case by simp
next
  case (Cons pf rest)
  from Cons.prems have "p \<in> set (activePromises (admitOne pf s))"
    by (simp add: promises_admitOne)
  from Cons.IH[OF this] Cons.prems show ?case by simp
qed

lemma admit_fids: "map fid (processableFiles (admit q s)) = map fid (processableFiles s)"
proof (induction q arbitrary: s)
  case Nil
  then show ?case by simp
next
  case (Cons pf rest)
  have "map fid (processableFiles (admitOne pf s)) = map fid (processableFiles s)"
    unfolding files_admitOne by (rule fid_applyEffect)
  with Cons.IH[of "admitOne pf s"] show ?case by simp
qed

lemma admit_processing:
  "k < length (processableFiles s) \<Longrightarrow> status (processableFiles s ! k) = Processing \<Longrightarrow>
     status (processableFiles (admit q s) ! k) = Processing"
proof (induction q arbitrary: s)
  case Nil
  then show ?case by simp
next
  case (Cons pf rest)
  have l: "k < length (processableFiles (admitOne pf s))"
    unfolding files_admitOne length_applyEffect by (rule Cons.prems(1))
  have "status (processableFiles (admitOne pf s) ! k) = Processing"
    unfolding files_admitOne
    using status_applyEffect_nth[OF Cons.prems(1), of "MarkProcessing (fid pf)"] Cons.prems(2)
    by simp
  from Cons.IH[OF l this] Cons.prems show ?case by simp
qed

lemma admit_head:
  assumes "length (activePromises s) < CONCURRENCY_LIMIT"
  shows "\<lparr>token = created s, job = pf, suspendedAt = AwaitingPart\<rparr>
           \<in> set (activePromises (admit (pf # rest) s)) \<and>
         (\<forall>f \<in> set (processableFiles (admit (pf # rest) s)).
            fid f = fid pf \<longrightarrow> status f = Processing)"
proof -
  let ?s1 = "admitOne pf s"
  have e: "admit (pf # rest) s = admit rest ?s1" using assms by simp
  have "\<lparr>token = created s, job = pf, suspendedAt = AwaitingPart\<rparr> \<in> set (activePromises ?s1)"
    by (simp add: promises_admitOne)
  then have a: "\<lparr>token = created s, job = pf, suspendedAt = AwaitingPart\<rparr>
           \<in> set (activePromises (admit rest ?s1))" by (rule admit_promises)
  have b: "status f = Processing"
    if f: "f \<in> set (processableFiles (admit rest ?s1))" "fid f = fid pf" for f
  proof -
    let ?F = "processableFiles (admit rest ?s1)"
    have len: "length ?F = length (processableFiles ?s1)"
      using admit_fids[of rest ?s1] by (metis length_map)
    from f(1) obtain k where k: "k < length ?F" "f = ?F ! k" by (auto simp add: in_set_conv_nth)
    have "fid (?F ! k) = fid (processableFiles ?s1 ! k)"
      using admit_fids[of rest ?s1] k(1) len by (metis nth_map)
    also have "\<dots> = fid (processableFiles s ! k)"
      unfolding files_admitOne using k(1) len
      by (simp add: fid_applyEffect_nth files_admitOne length_applyEffect del: applyEffect.simps)
    finally have i: "fid (processableFiles s ! k) = fid pf" using f(2) k(2) by simp
    have ks: "k < length (processableFiles s)"
      using k(1) len by (simp add: files_admitOne length_applyEffect del: applyEffect.simps)
    have "status (processableFiles ?s1 ! k) = Processing"
      unfolding files_admitOne
      using status_applyEffect_nth[OF ks, of "MarkProcessing (fid pf)"] i by simp
    from admit_processing[OF _ this] k len show ?thesis by simp
  qed
  from a b show ?thesis unfolding e by blast
qed

lemma find_token:
  assumes "sorted_wrt (<) (map token ps)" and "p \<in> set ps"
  shows "find (\<lambda>q. token q = token p) ps = Some p"
  using assms
proof (induction ps)
  case Nil
  then show ?case by simp
next
  case (Cons a ps)
  show ?case
  proof (cases "a = p")
    case True
    then show ?thesis by simp
  next
    case False
    with Cons.prems have m: "p \<in> set ps" and lt: "token a < token p" by auto
    from Cons.prems(1) have "sorted_wrt (<) (map token ps)" by simp
    from Cons.IH[OF this m] lt show ?thesis by simp
  qed
qed

lemmas scheduler_eval = handleProcessMultiFile_def iterate_def admitOne_def startOneFile_def
  updateFile_def CONCURRENCY_LIMIT_def processingCount_def sixFiles_def pendingFile_def
  sixEvents_def ascii_def Let_def

lemma six_start:
  "\<exists>s0. handleProcessMultiFile sixFiles = Started s0 \<and>
      map token (activePromises s0) = [0, 1, 2, 3, 4] \<and>
      map fid (queue s0) = [ascii ''f''] \<and>
      map status (processableFiles s0) =
        [Processing, Processing, Processing, Processing, Processing, Pending] \<and>
      (\<exists>s. run basicLatin exampleParse None s0 sixEvents = Some s \<and>
         map token (activePromises s) = [1, 2, 3, 4, 5] \<and>
         queue s = [] \<and>
         map status (processableFiles s) =
           [Error, Processing, Processing, Processing, Processing, Processing] \<and>
         processingCount (processableFiles s) = 5)"
  by (simp add: scheduler_eval)

text \<open>
  C1. Let the files have distinct ids and let none be marked as processing when
  \<open>handleProcessMultiFile\<close> is called. Then after any sequence of events, removals of
  files by the user among them, at most 5 files are marked as processing and at most 5
  promises are active. The queue is what is left of
  the pending files, and the active promises are jobs for the files before it, in the
  order of the queue. The callback of every completed job, whether it ended as done or as
  an error, can run; it takes one promise out, which leaves fewer than 5, and when the
  function then goes on it admits the file at the head of the queue and marks it as
  processing.
\<close>

theorem scheduler_bounded_and_fifo:
  assumes "distinct (map fid files)"
    and "\<forall>f \<in> set files. status f \<noteq> Processing"
    and "handleProcessMultiFile files = Started s0"
    and "run U JSON_parse newClient s0 events = Some s"
  shows "processingCount (processableFiles s) \<le> 5 \<and>
     length (activePromises s) \<le> 5 \<and>
     queue s = drop (created s) (filter (\<lambda>pf. status pf = Pending) files) \<and>
     (\<forall>p \<in> set (activePromises s).
        token p < created s \<and> job p = filter (\<lambda>pf. status pf = Pending) files ! token p) \<and>
     sorted_wrt (<) (map token (activePromises s)) \<and>
     (\<forall>p \<in> set (activePromises s).
        suspendedAt p = Completed \<longrightarrow>
          (\<exists>s'. step U JSON_parse newClient s (Callback (token p)) = Some s' \<and>
                Suc (length (activePromises s')) = length (activePromises s) \<and>
                length (activePromises s') < 5 \<and>
                queue s' = queue s \<and>
                (\<exists>s''. step U JSON_parse newClient s' Continue = Some s'' \<and>
                   (\<forall>pf rest. queue s' = pf # rest \<longrightarrow>
                      \<lparr>token = created s', job = pf, suspendedAt = AwaitingPart\<rparr>
                        \<in> set (activePromises s'') \<and>
                      (\<forall>f \<in> set (processableFiles s''). fid f = fid pf \<longrightarrow>
                         status f = Processing)))))"
proof -
  let ?pending = "filter (\<lambda>pf. status pf = Pending) files"
  from run_invariant[OF start_invariant[OF assms(1,2,3)] assms(4)]
  have inv: "schedulerInvariant ?pending s" .
  then have core: "admissionInvariant ?pending s"
    and q: "queue s = drop (created s) ?pending"
    and lp: "activePromises s \<noteq> [] \<longrightarrow> loop s = AwaitingRace \<or> loop s = RaceSettled"
    by (simp_all add: schedulerInvariant_def)
  note D = admissionInvariantD[OF core]
  have c1: "processingCount (processableFiles s) \<le> 5"
    using processing_bounded[OF core] by (simp add: CONCURRENCY_LIMIT_def)
  have c2: "length (activePromises s) \<le> 5" using D(6) by (simp add: CONCURRENCY_LIMIT_def)
  have c4: "\<forall>p \<in> set (activePromises s).
        token p < created s \<and> job p = ?pending ! token p" using D(4) by blast
  have c6: "\<exists>s'. step U JSON_parse newClient s (Callback (token p)) = Some s' \<and>
                Suc (length (activePromises s')) = length (activePromises s) \<and>
                length (activePromises s') < 5 \<and>
                queue s' = queue s \<and>
                (\<exists>s''. step U JSON_parse newClient s' Continue = Some s'' \<and>
                   (\<forall>pf rest. queue s' = pf # rest \<longrightarrow>
                      \<lparr>token = created s', job = pf, suspendedAt = AwaitingPart\<rparr>
                        \<in> set (activePromises s'') \<and>
                      (\<forall>f \<in> set (processableFiles s''). fid f = fid pf \<longrightarrow>
                         status f = Processing)))"
    if p: "p \<in> set (activePromises s)" "suspendedAt p = Completed" for p
  proof -
    let ?s' = "s\<lparr>activePromises := spliceOut (token p) (activePromises s),
        loop := (if loop s = AwaitingRace then RaceSettled else loop s)\<rparr>"
    from find_token[OF D(5) p(1)]
    have f: "find (\<lambda>q. token q = token p) (activePromises s) = Some p" .
    with p(2) have st: "step U JSON_parse newClient s (Callback (token p)) = Some ?s'" by simp
    from length_splice[OF f]
    have len: "Suc (length (activePromises ?s')) = length (activePromises s)" by simp
    with c2 have lt: "length (activePromises ?s') < 5" by simp
    from p(1) lp have "loop s = AwaitingRace \<or> loop s = RaceSettled" by auto
    then have "loop ?s' = RaceSettled" by auto
    then have ct: "step U JSON_parse newClient ?s' Continue = Some (iterate ?s')" by simp
    have ad: "\<lparr>token = created ?s', job = pf, suspendedAt = AwaitingPart\<rparr>
                        \<in> set (activePromises (iterate ?s')) \<and>
                      (\<forall>f \<in> set (processableFiles (iterate ?s')). fid f = fid pf \<longrightarrow>
                         status f = Processing)"
      if qq: "queue ?s' = pf # rest" for pf rest
    proof -
      from lt have l: "length (activePromises ?s') < CONCURRENCY_LIMIT"
        by (simp add: CONCURRENCY_LIMIT_def)
      let ?a = "admit (pf # rest) ?s'"
      from qq have it: "iterate ?s' =
        (if activePromises ?a \<noteq> [] then ?a\<lparr>loop := AwaitingRace\<rparr>
         else if queue ?a \<noteq> [] then ?a\<lparr>loop := AwaitingTimer\<rparr>
         else ?a\<lparr>loop := Returned, isLoading := False\<rparr>)"
        unfolding iterate_def Let_def by simp
      have "activePromises (iterate ?s') = activePromises ?a"
        and "processableFiles (iterate ?s') = processableFiles ?a"
        unfolding it by (simp_all del: admit.simps)
      with admit_head[OF l, of pf rest] show ?thesis by (simp del: admit.simps)
    qed
    have qs: "queue ?s' = queue s" by simp
    have inner: "\<exists>s''. step U JSON_parse newClient ?s' Continue = Some s'' \<and>
                   (\<forall>pf rest. queue ?s' = pf # rest \<longrightarrow>
                      \<lparr>token = created ?s', job = pf, suspendedAt = AwaitingPart\<rparr>
                        \<in> set (activePromises s'') \<and>
                      (\<forall>f \<in> set (processableFiles s''). fid f = fid pf \<longrightarrow>
                         status f = Processing))"
    proof (intro exI[of _ "iterate ?s'"] conjI allI impI)
      show "step U JSON_parse newClient ?s' Continue = Some (iterate ?s')" by (rule ct)
    next
      fix pf rest assume "queue ?s' = pf # rest"
      from ad[OF this] show "\<lparr>token = created ?s', job = pf, suspendedAt = AwaitingPart\<rparr>
                        \<in> set (activePromises (iterate ?s'))" by (rule conjunct1)
    next
      fix pf rest assume "queue ?s' = pf # rest"
      from ad[OF this] show "\<forall>f \<in> set (processableFiles (iterate ?s')). fid f = fid pf \<longrightarrow>
                         status f = Processing" by (rule conjunct2)
    qed
    show ?thesis by (intro exI[of _ ?s'] conjI st len lt qs inner)
  qed
  have c6': "\<forall>p \<in> set (activePromises s).
        suspendedAt p = Completed \<longrightarrow>
          (\<exists>s'. step U JSON_parse newClient s (Callback (token p)) = Some s' \<and>
                Suc (length (activePromises s')) = length (activePromises s) \<and>
                length (activePromises s') < 5 \<and>
                queue s' = queue s \<and>
                (\<exists>s''. step U JSON_parse newClient s' Continue = Some s'' \<and>
                   (\<forall>pf rest. queue s' = pf # rest \<longrightarrow>
                      \<lparr>token = created s', job = pf, suspendedAt = AwaitingPart\<rparr>
                        \<in> set (activePromises s'') \<and>
                      (\<forall>f \<in> set (processableFiles s''). fid f = fid pf \<longrightarrow>
                         status f = Processing))))"
    by (intro ballI impI) (rule c6)
  show ?thesis by (intro conjI c1 c2 q c4 D(5) c6')
qed

text \<open>
  The same for six pending files: five are admitted at once, the first job fails, and the
  sixth file is admitted in its place.
\<close>

theorem scheduler_bounded_and_fifo_witness:
  "distinct (map fid sixFiles) \<and>
   list_all (\<lambda>f. status f \<noteq> Processing) sixFiles \<and>
   (\<exists>s0 s. handleProcessMultiFile sixFiles = Started s0 \<and>
      map token (activePromises s0) = [0, 1, 2, 3, 4] \<and>
      map fid (queue s0) = [ascii ''f''] \<and>
      run basicLatin exampleParse None s0 sixEvents = Some s \<and>
      map token (activePromises s) = [1, 2, 3, 4, 5] \<and>
      queue s = [] \<and>
      map status (processableFiles s) =
        [Error, Processing, Processing, Processing, Processing, Processing] \<and>
      processingCount (processableFiles s) \<le> 5 \<and>
      length (activePromises s) \<le> 5)"
proof -
  have d: "distinct (map fid sixFiles)" by (simp add: sixFiles_def pendingFile_def ascii_def)
  have n: "\<forall>f \<in> set sixFiles. status f \<noteq> Processing"
    by (simp add: sixFiles_def pendingFile_def)
  from six_start obtain s0 s where h: "handleProcessMultiFile sixFiles = Started s0"
    "map token (activePromises s0) = [0, 1, 2, 3, 4]"
    "map fid (queue s0) = [ascii ''f'']"
    "run basicLatin exampleParse None s0 sixEvents = Some s"
    "map token (activePromises s) = [1, 2, 3, 4, 5]"
    "queue s = []"
    "map status (processableFiles s) =
        [Error, Processing, Processing, Processing, Processing, Processing]"
    by (elim exE conjE) (rule that)
  note T = scheduler_bounded_and_fifo[OF d n h(1) h(4)]
  from T have b: "processingCount (processableFiles s) \<le> 5" by (rule conjunct1)
  from T have c: "length (activePromises s) \<le> 5" by (rule conjunct2[THEN conjunct1])
  from n have n': "list_all (\<lambda>f. status f \<noteq> Processing) sixFiles" by (simp add: list_all_iff)
  from h b c have "\<exists>s0 s. handleProcessMultiFile sixFiles = Started s0 \<and>
      map token (activePromises s0) = [0, 1, 2, 3, 4] \<and>
      map fid (queue s0) = [ascii ''f''] \<and>
      run basicLatin exampleParse None s0 sixEvents = Some s \<and>
      map token (activePromises s) = [1, 2, 3, 4, 5] \<and>
      queue s = [] \<and>
      map status (processableFiles s) =
        [Error, Processing, Processing, Processing, Processing, Processing] \<and>
      processingCount (processableFiles s) \<le> 5 \<and>
      length (activePromises s) \<le> 5"
    by (intro exI[of _ s0] exI[of _ s] conjI)
  with d n' show ?thesis by (intro conjI)
qed

end
